theory Spec2Isabelle
  imports Complex_Main
begin

section \<open>Python string primitives\<close>

text \<open>
  Python \<open>str\<close> values are modelled as \<^typ>\<open>string\<close>. The methods \<open>strip\<close>, \<open>lower\<close> and
  \<open>upper\<close> are modelled on the ASCII range, where they agree with Python: \<open>strip()\<close> removes
  the ASCII whitespace characters (tab, line feed, vertical tab, form feed, carriage return,
  the separators 0x1C to 0x1F and the space) from both ends, \<open>lower()\<close> maps \<open>A\<close>..\<open>Z\<close> to
  \<open>a\<close>..\<open>z\<close> and \<open>upper()\<close> the other way round. Characters above 0x7F are the bytes of a
  UTF-8 encoding and are left untouched by the three methods of the model; what Python does
  to text outside ASCII (Unicode whitespace, case mappings of other letters) is not modelled.
\<close>

definition ascii_whitespace :: "char list" where
  "ascii_whitespace =
     [CHR 0x09, CHR 0x0A, CHR 0x0B, CHR 0x0C, CHR 0x0D,
      CHR 0x1C, CHR 0x1D, CHR 0x1E, CHR 0x1F, CHR '' '']"

definition py_isspace :: "char \<Rightarrow> bool" where
  "py_isspace c = (c \<in> set ascii_whitespace)"

definition ascii_upper :: string where
  "ascii_upper = ''ABCDEFGHIJKLMNOPQRSTUVWXYZ''"

definition ascii_lower :: string where
  "ascii_lower = ''abcdefghijklmnopqrstuvwxyz''"

definition lower_char :: "char \<Rightarrow> char" where
  "lower_char c = (case map_of (zip ascii_upper ascii_lower) c of Some d \<Rightarrow> d | None \<Rightarrow> c)"

definition upper_char :: "char \<Rightarrow> char" where
  "upper_char c = (case map_of (zip ascii_lower ascii_upper) c of Some d \<Rightarrow> d | None \<Rightarrow> c)"

definition lower :: "string \<Rightarrow> string" where
  "lower s = map lower_char s"

definition upper :: "string \<Rightarrow> string" where
  "upper s = map upper_char s"

definition strip :: "string \<Rightarrow> string" where
  "strip s = rev (dropWhile py_isspace (rev (dropWhile py_isspace s)))"

text \<open>\<open>s.replace(old, new)\<close> for one-character \<open>old\<close> and \<open>new\<close>, the only use in the source.\<close>

definition replace :: "char \<Rightarrow> char \<Rightarrow> string \<Rightarrow> string" where
  "replace old new s = map (\<lambda>c. if c = old then new else c) s"


section \<open>Canonicalization of action fields (thinker.py, doer.py)\<close>

text \<open>
  \<open>_canonical_action_type\<close> and \<open>_canonical_priority\<close> are defined twice in the source, with
  the same text, in \<open>agents/thinker.py\<close> and in \<open>agents/doer.py\<close>. The last line of the first,
  \<open>return s or "alert"\<close>, returns \<open>s\<close> itself unless \<open>s\<close> is empty.
\<close>

definition stop_synonyms :: "string set" where
  "stop_synonyms = {''stop'', ''stopline'', ''stop_line'', ''halt'', ''shutdown''}"

definition alert_synonyms :: "string set" where
  "alert_synonyms = {''alert'', ''warn'', ''notify''}"

definition canonical_action_type :: "string \<Rightarrow> string" where
  "canonical_action_type t =
     (let s = replace (CHR '' '') (CHR ''_'') (replace (CHR ''-'') (CHR ''_'') (lower (strip t)))
      in if s \<in> stop_synonyms then ''stop_line''
         else if s \<in> alert_synonyms then ''alert''
         else if s = [] then ''alert'' else s)"

text \<open>The local variable \<open>s\<close> of \<open>_canonical_action_type\<close>, as a function of the argument.\<close>

definition action_type_key :: "string \<Rightarrow> string" where
  "action_type_key t =
     replace (CHR '' '') (CHR ''_'') (replace (CHR ''-'') (CHR ''_'') (lower (strip t)))"

definition canonical_priority :: "string \<Rightarrow> string" where
  "canonical_priority p =
     (let s = upper (strip p)
      in if s \<in> {''P1'', ''P2'', ''P3''} then s
         else if s \<in> {''1'', ''2'', ''3''} then ''P'' @ s
         else ''P2'')"


text \<open>The three character maps composed by \<open>_canonical_action_type\<close>, applied pointwise.\<close>

definition key_char :: "char \<Rightarrow> char" where
  "key_char c =
     (let d = lower_char c; e = (if d = CHR ''-'' then CHR ''_'' else d)
      in if e = CHR '' '' then CHR ''_'' else e)"


section \<open>RuntimeState (runtime/state.py)\<close>

text \<open>
  The values of \<open>time.time()\<close> are modelled as reals, and the arithmetic on them is exact: the
  rounding of Python's floating-point subtraction and multiplication is outside the model.
  Every operation that reads the clock takes the value read as its first argument \<open>now\<close>.
\<close>

text \<open>\<open>int(x)\<close> on a float: truncation toward zero.\<close>

definition py_int :: "real \<Rightarrow> int" where
  "py_int x = (if 0 \<le> x then \<lfloor>x\<rfloor> else \<lceil>x\<rceil>)"

record StageInFlight =
  start_ts :: real
  stage :: string
  sif_trace_id :: string
  clip_index :: int
  dd_trace_id :: int
  dd_parent_id :: int

record TraceTimestamps =
  clip_ts :: "real option"
  obs_ts :: "real option"
  dec_ts :: "real option"
  act_ts :: "real option"

definition TraceTimestamps_init :: TraceTimestamps where
  "TraceTimestamps_init = \<lparr>clip_ts = None, obs_ts = None, dec_ts = None, act_ts = None\<rparr>"

text \<open>
  \<open>inflight\<close> is a Python dict, read by the watchdog in insertion order: an association list
  with one entry per key. \<open>ts\<close> is a dict that is only read by key: a map.
\<close>

record RuntimeState =
  inflight :: "(string \<times> StageInFlight) list"
  ts :: "string \<rightharpoonup> TraceTimestamps"

definition RuntimeState_init :: RuntimeState where
  "RuntimeState_init = \<lparr>inflight = [], ts = Map.empty\<rparr>"

text \<open>\<open>d[key] = v\<close> on a dict: an existing key keeps its position, a new key goes last.\<close>

fun dict_set :: "'k \<Rightarrow> 'v \<Rightarrow> ('k \<times> 'v) list \<Rightarrow> ('k \<times> 'v) list" where
  "dict_set k v [] = [(k, v)]"
| "dict_set k v ((k', v') # d) = (if k' = k then (k, v) # d else (k', v') # dict_set k v d)"

definition stage_key :: "string \<Rightarrow> string \<Rightarrow> string" where
  "stage_key trace_id stg = trace_id @ '':'' @ stg"

definition begin_stage ::
  "real \<Rightarrow> string \<Rightarrow> string \<Rightarrow> int \<Rightarrow> int \<Rightarrow> int \<Rightarrow> RuntimeState \<Rightarrow> RuntimeState \<times> string" where
  "begin_stage now trace_id stg clip_idx dd_trace dd_parent st =
     (let key = stage_key trace_id stg;
          sif = \<lparr>start_ts = now, stage = stg, sif_trace_id = trace_id, clip_index = clip_idx,
                 dd_trace_id = dd_trace, dd_parent_id = dd_parent\<rparr>
      in (st\<lparr>inflight := dict_set key sif (inflight st)\<rparr>, key))"

text \<open>\<open>self.inflight.pop(key, None)\<close>.\<close>

definition end_stage :: "string \<Rightarrow> RuntimeState \<Rightarrow> RuntimeState \<times> StageInFlight option" where
  "end_stage key st =
     (st\<lparr>inflight := filter (\<lambda>(k, v). k \<noteq> key) (inflight st)\<rparr>, map_of (inflight st) key)"

text \<open>
  \<open>mark\<close>: an instance of the dataclass \<open>TraceTimestamps\<close> is always truthy, so
  \<open>self.ts.get(trace_id) or TraceTimestamps()\<close> is the stored entry when there is one. No
  branch tests whether the field already has a value.
\<close>

definition mark :: "real \<Rightarrow> string \<Rightarrow> string \<Rightarrow> RuntimeState \<Rightarrow> RuntimeState" where
  "mark now trace_id kind st =
     (let t = (case ts st trace_id of Some t \<Rightarrow> t | None \<Rightarrow> TraceTimestamps_init);
          t' = (if kind = ''clip'' then t\<lparr>clip_ts := Some now\<rparr>
                else if kind = ''observation'' then t\<lparr>obs_ts := Some now\<rparr>
                else if kind = ''decision'' then t\<lparr>dec_ts := Some now\<rparr>
                else if kind = ''action'' then t\<lparr>act_ts := Some now\<rparr>
                else t)
      in st\<lparr>ts := (ts st)(trace_id \<mapsto> t')\<rparr>)"

definition e2e_decision_latency_ms :: "string \<Rightarrow> RuntimeState \<Rightarrow> int option" where
  "e2e_decision_latency_ms trace_id st =
     (case ts st trace_id of
        None \<Rightarrow> None
      | Some t \<Rightarrow>
          (case clip_ts t of
             None \<Rightarrow> None
           | Some c \<Rightarrow>
               (case dec_ts t of
                  None \<Rightarrow> None
                | Some d \<Rightarrow> Some (py_int ((d - c) * 1000)))))"

definition e2e_observation_latency_ms :: "string \<Rightarrow> RuntimeState \<Rightarrow> int option" where
  "e2e_observation_latency_ms trace_id st =
     (case ts st trace_id of
        None \<Rightarrow> None
      | Some t \<Rightarrow>
          (case clip_ts t of
             None \<Rightarrow> None
           | Some c \<Rightarrow>
               (case obs_ts t of
                  None \<Rightarrow> None
                | Some d \<Rightarrow> Some (py_int ((d - c) * 1000)))))"

text \<open>The four milestone kinds, and the field of \<open>TraceTimestamps\<close> that belongs to each.\<close>

definition milestones :: "string list" where
  "milestones = [''clip'', ''observation'', ''decision'', ''action'']"

definition milestone_ts :: "string \<Rightarrow> TraceTimestamps \<Rightarrow> real option" where
  "milestone_ts kind t =
     (if kind = ''clip'' then clip_ts t
      else if kind = ''observation'' then obs_ts t
      else if kind = ''decision'' then dec_ts t
      else if kind = ''action'' then act_ts t
      else None)"

text \<open>The timestamps of a trace, as \<open>mark\<close> reads them.\<close>

definition trace_ts :: "RuntimeState \<Rightarrow> string \<Rightarrow> TraceTimestamps" where
  "trace_ts st trace_id = (case ts st trace_id of Some t \<Rightarrow> t | None \<Rightarrow> TraceTimestamps_init)"

text \<open>A sequence of \<open>mark\<close> calls, each with the clock value it reads, oldest first.\<close>

definition marks :: "(real \<times> string \<times> string) list \<Rightarrow> RuntimeState \<Rightarrow> RuntimeState" where
  "marks calls st = foldl (\<lambda>s (now, trace_id, kind). mark now trace_id kind s) st calls"

text \<open>The clock value of the last call of a sequence for one trace and milestone.\<close>

definition last_mark :: "string \<Rightarrow> string \<Rightarrow> (real \<times> string \<times> string) list \<Rightarrow> real option" where
  "last_mark trace_id kind calls =
     (let cs = filter (\<lambda>(now, tr, k). tr = trace_id \<and> k = kind) calls
      in if cs = [] then None else Some (fst (last cs)))"


section \<open>Python values read through \<open>str()\<close> and \<open>dict.get\<close>\<close>

text \<open>
  The payloads and the decoded model output are \<open>Dict[str, Any]\<close>. A value that the source
  passes to \<open>str()\<close> or tests for truth is a \<open>pyval\<close>: a \<open>str\<close>, or any other object, given
  by what the source can observe of it, its truth value and its \<open>str()\<close> text. A position that
  the source tests with \<open>isinstance(_, dict)\<close> or \<open>isinstance(_, list)\<close> holds an option:
  \<open>None\<close> when the test fails.
\<close>

datatype pyval = PStr string | PObj bool string

fun py_str :: "pyval \<Rightarrow> string" where
  "py_str (PStr s) = s"
| "py_str (PObj b s) = s"

fun py_truthy :: "pyval \<Rightarrow> bool" where
  "py_truthy (PStr s) = (s \<noteq> [])"
| "py_truthy (PObj b s) = b"

type_synonym pydict = "string \<rightharpoonup> pyval"

text \<open>\<open>d.get(k, default)\<close>.\<close>

definition dict_get :: "pydict \<Rightarrow> string \<Rightarrow> pyval \<Rightarrow> pyval" where
  "dict_get d k dflt = (case d k of Some v \<Rightarrow> v | None \<Rightarrow> dflt)"


section \<open>AuditBuffer (audit/buffer.py)\<close>

text \<open>
  An audit record. \<open>add\<close> and \<open>recent\<close> never look inside the payload, so the record is
  polymorphic in it. The id (\<open>uuid.uuid4()\<close>) and the timestamp text
  (\<open>datetime.now(timezone.utc).isoformat()\<close>) are read from the environment and passed to
  \<open>add\<close> as arguments.
\<close>

record 'p AuditEvent =
  audit_id :: string
  ev_ts :: string
  ev_kind :: string
  ev_trace_id :: string
  ev_payload :: 'p

text \<open>
  \<open>deque(maxlen=max_events)\<close>, oldest record first. A negative \<open>maxlen\<close> raises \<open>ValueError\<close>
  in the constructor: the result \<open>None\<close>.
\<close>

record 'p AuditBuffer =
  maxlen :: nat
  events :: "'p AuditEvent list"

definition AuditBuffer_init :: "int \<Rightarrow> 'p AuditBuffer option" where
  "AuditBuffer_init max_events =
     (if max_events < 0 then None else Some \<lparr>maxlen = nat max_events, events = []\<rparr>)"

text \<open>\<open>deque.append\<close> with a bound: the item is appended, then the deque is trimmed on the left.\<close>

definition deque_append :: "nat \<Rightarrow> 'a list \<Rightarrow> 'a \<Rightarrow> 'a list" where
  "deque_append n xs x = (let ys = xs @ [x] in if n < length ys then tl ys else ys)"

definition add ::
  "string \<Rightarrow> string \<Rightarrow> string \<Rightarrow> string \<Rightarrow> 'p \<Rightarrow> 'p AuditBuffer \<Rightarrow> 'p AuditBuffer \<times> string" where
  "add eid now knd tid pl buf =
     (let ev = \<lparr>audit_id = eid, ev_ts = now, ev_kind = knd, ev_trace_id = tid, ev_payload = pl\<rparr>
      in (buf\<lparr>events := deque_append (maxlen buf) (events buf) ev\<rparr>, eid))"

text \<open>\<open>list(self._events)[-lim:]\<close> is the last \<open>lim\<close> records, or all of them when there are fewer.\<close>

definition recent :: "int \<Rightarrow> 'p AuditBuffer \<Rightarrow> 'p AuditEvent list" where
  "recent limit buf =
     (let lim = max 1 limit;
          items = drop (length (events buf) - nat lim) (events buf)
      in rev items)"

text \<open>
  What \<open>kpi\<close> reads of a payload: \<open>pl_action\<close> is the value under \<open>"action"\<close> when it is a
  dict, \<open>pl_status\<close> the value under \<open>"status"\<close> when the key is present.
\<close>

record kpi_payload =
  pl_action :: "pydict option"
  pl_status :: "pyval option"

text \<open>The variables of the loop of \<open>kpi\<close> over the action records (\<open>stop_line\<close>, \<open>alert\<close>,
  \<open>last_stop_ts\<close>, \<open>p\<close>, \<open>sent\<close>, \<open>failed\<close>, \<open>skipped\<close>).\<close>

record kpi_counts =
  acc_stop_line :: nat
  acc_alert :: nat
  acc_last_stop_ts :: "string option"
  acc_p :: "string \<rightharpoonup> nat"
  acc_sent :: nat
  acc_failed :: nat
  acc_skipped :: nat

definition kpi_counts_init :: kpi_counts where
  "kpi_counts_init =
     \<lparr>acc_stop_line = 0, acc_alert = 0, acc_last_stop_ts = None,
      acc_p = [''P1'' \<mapsto> 0, ''P2'' \<mapsto> 0, ''P3'' \<mapsto> 0],
      acc_sent = 0, acc_failed = 0, acc_skipped = 0\<rparr>"

text \<open>One iteration of \<open>for a in actions\<close>.\<close>

definition kpi_step :: "kpi_payload AuditEvent \<Rightarrow> kpi_counts \<Rightarrow> kpi_counts" where
  "kpi_step a c =
     (let act = (case pl_action (ev_payload a) of Some d \<Rightarrow> d | None \<Rightarrow> Map.empty);
          t = lower (py_str (dict_get act ''type'' (PStr [])));
          pr = upper (py_str (dict_get act ''priority'' (PStr [])));
          status = lower (py_str (case pl_status (ev_payload a) of Some v \<Rightarrow> v | None \<Rightarrow> PStr []));
          c1 = (case acc_p c pr of
                  Some n \<Rightarrow> c\<lparr>acc_p := (acc_p c)(pr \<mapsto> n + 1)\<rparr>
                | None \<Rightarrow> c);
          c2 = (if status = ''sent'' then c1\<lparr>acc_sent := acc_sent c1 + 1\<rparr>
                else if status = ''failed'' then c1\<lparr>acc_failed := acc_failed c1 + 1\<rparr>
                else if status = ''skipped'' then c1\<lparr>acc_skipped := acc_skipped c1 + 1\<rparr>
                else c1)
      in if t = ''stop_line''
         then c2\<lparr>acc_stop_line := acc_stop_line c2 + 1, acc_last_stop_ts := Some (ev_ts a)\<rparr>
         else if t = ''alert'' then c2\<lparr>acc_alert := acc_alert c2 + 1\<rparr>
         else c2)"

record kpi_result =
  kpi_stop_line :: nat
  kpi_alert :: nat
  kpi_decisions :: nat
  kpi_observations :: nat
  kpi_actions :: nat
  kpi_action_sent :: nat
  kpi_action_failed :: nat
  kpi_action_skipped :: nat
  kpi_last_stop_line_ts :: "string option"
  kpi_priorities :: "string \<rightharpoonup> nat"
  kpi_tool_errors :: nat
  kpi_stage_timeouts :: nat
  kpi_security_events :: nat

definition kpi :: "kpi_payload AuditBuffer \<Rightarrow> kpi_result" where
  "kpi buf =
     (let items = events buf;
          decisions = filter (\<lambda>x. ev_kind x = ''decision'') items;
          observations = filter (\<lambda>x. ev_kind x = ''observation'') items;
          actions = filter (\<lambda>x. ev_kind x = ''action'') items;
          tool_errors = filter (\<lambda>x. ev_kind x = ''tool_error'') items;
          stage_timeouts = filter (\<lambda>x. ev_kind x = ''stage_timeout'') items;
          security_events = filter (\<lambda>x. ev_kind x = ''security'') items;
          c = foldl (\<lambda>c a. kpi_step a c) kpi_counts_init actions
      in \<lparr>kpi_stop_line = acc_stop_line c,
          kpi_alert = acc_alert c,
          kpi_decisions = length decisions,
          kpi_observations = length observations,
          kpi_actions = length actions,
          kpi_action_sent = acc_sent c,
          kpi_action_failed = acc_failed c,
          kpi_action_skipped = acc_skipped c,
          kpi_last_stop_line_ts = acc_last_stop_ts c,
          kpi_priorities = acc_p c,
          kpi_tool_errors = length tool_errors,
          kpi_stage_timeouts = length stage_timeouts,
          kpi_security_events = length security_events\<rparr>)"

text \<open>A sequence of \<open>add\<close> calls, each with its five arguments, oldest first.\<close>

type_synonym 'p add_call = "string \<times> string \<times> string \<times> string \<times> 'p"

definition adds :: "'p add_call list \<Rightarrow> 'p AuditBuffer \<Rightarrow> 'p AuditBuffer" where
  "adds calls buf =
     foldl (\<lambda>b (eid, now, knd, tid, pl). fst (add eid now knd tid pl b)) buf calls"

text \<open>The record that an \<open>add\<close> call inserts.\<close>

definition inserted :: "'p add_call \<Rightarrow> 'p AuditEvent" where
  "inserted c =
     (case c of (eid, now, knd, tid, pl) \<Rightarrow>
        \<lparr>audit_id = eid, ev_ts = now, ev_kind = knd, ev_trace_id = tid, ev_payload = pl\<rparr>)"

text \<open>The status text that \<open>kpi\<close> compares, and whether it is one of the three it counts.\<close>

definition status_text :: "kpi_payload AuditEvent \<Rightarrow> string" where
  "status_text a = lower (py_str (case pl_status (ev_payload a) of Some v \<Rightarrow> v | None \<Rightarrow> PStr []))"

definition counted_status :: "kpi_payload AuditEvent \<Rightarrow> bool" where
  "counted_status a = (status_text a \<in> {''sent'', ''failed'', ''skipped''})"


section \<open>Settings (config/settings.py)\<close>

text \<open>The fields of \<open>Settings\<close> that the modelled components read.\<close>

record Settings =
  gameday_enabled :: bool
  gameday_scenario :: string
  gameday_force :: bool
  slo_observer_ms :: int
  slo_thinker_ms :: int
  slo_doer_ms :: int
  slo_dispatcher_ms :: int
  slo_pipeline_e2e_ms :: int


section \<open>GameDayController (gameday/controller.py)\<close>

definition VALID_SCENARIOS :: "string set" where
  "VALID_SCENARIOS = {''none'', ''dispatcher_outage'', ''long_running_observer'', ''injection''}"

record GameDayStatus =
  st_enabled :: bool
  st_scenario :: string
  st_since_ts :: real
  st_force :: bool

text \<open>The attributes \<open>cfg\<close>, \<open>_scenario\<close>, \<open>_since\<close> and \<open>_force\<close> of the controller.\<close>

record GameDayController =
  gd_cfg :: Settings
  gd_scenario :: string
  gd_since :: real
  gd_force :: bool

definition GameDayController_init :: "Settings \<Rightarrow> real \<Rightarrow> GameDayController" where
  "GameDayController_init cfg now =
     (let s = (if gameday_enabled cfg then gameday_scenario cfg else ''none'');
          s' = (if s \<notin> VALID_SCENARIOS then ''none'' else s)
      in \<lparr>gd_cfg = cfg, gd_scenario = s', gd_since = now, gd_force = gameday_force cfg\<rparr>)"

definition status :: "GameDayController \<Rightarrow> GameDayStatus" where
  "status g =
     \<lparr>st_enabled = gameday_enabled (gd_cfg g), st_scenario = gd_scenario g,
      st_since_ts = gd_since g, st_force = gd_force g\<rparr>"

text \<open>
  An \<open>audit.add(kind, trace_id, payload)\<close> call made by a component is returned by the model
  of the component as the triple of its arguments.
\<close>

type_synonym audit_call = "string \<times> string \<times> pydict"

definition set_scenario ::
  "real \<Rightarrow> string \<Rightarrow> GameDayController \<Rightarrow> GameDayController \<times> audit_call" where
  "set_scenario now name g =
     (let s = (if name \<notin> VALID_SCENARIOS then ''none'' else name)
      in (g\<lparr>gd_scenario := s, gd_since := now\<rparr>,
          (''health'', ''gameday'', [''event'' \<mapsto> PStr ''scenario_set'', ''scenario'' \<mapsto> PStr s])))"

definition reset :: "real \<Rightarrow> GameDayController \<Rightarrow> GameDayController \<times> audit_call" where
  "reset now g = set_scenario now ''none'' g"

definition active :: "string \<Rightarrow> GameDayController \<Rightarrow> bool" where
  "active name g = (if \<not> gameday_enabled (gd_cfg g) then False else gd_scenario g = name)"

definition tags :: "GameDayController \<Rightarrow> pydict" where
  "tags g =
     [''scenario'' \<mapsto> PStr (st_scenario (status g)),
      ''gameday'' \<mapsto> PStr (lower (if st_enabled (status g) then ''True'' else ''False''))]"

text \<open>The mutating calls on a controller, each with the clock value it reads, and a run of them.\<close>

datatype gd_call = SetScenario real string | Reset real

fun gd_apply :: "GameDayController \<Rightarrow> gd_call \<Rightarrow> GameDayController" where
  "gd_apply g (SetScenario now name) = fst (set_scenario now name g)"
| "gd_apply g (Reset now) = fst (reset now g)"

definition gd_run :: "gd_call list \<Rightarrow> GameDayController \<Rightarrow> GameDayController" where
  "gd_run calls g = foldl gd_apply g calls"


section \<open>ThinkerAgent: trigger rules and cooldown (agents/thinker.py)\<close>

text \<open>\<open>_yn\<close>, applied to the result of \<open>signals.get(name)\<close>: \<open>None\<close> when the key is absent.\<close>

definition yn :: "pyval option \<Rightarrow> string" where
  "yn v =
     (case v of
        Some (PStr x) \<Rightarrow>
          (let s = lower (strip x)
           in if s \<in> {''yes'', ''no'', ''uncertain''} then s else ''uncertain'')
      | _ \<Rightarrow> ''uncertain'')"

definition should_trigger :: "pydict \<Rightarrow> bool \<times> string" where
  "should_trigger s =
     (let walkway = (yn (s ''walkway_violation'') = ''yes'');
          restricted = (yn (s ''restricted_area_entry'') = ''yes'');
          prox = (yn (s ''unsafe_proximity_to_machine'') = ''yes'');
          machine = (yn (s ''machine_operating'') = ''yes'');
          panel = (yn (s ''panel_open'') = ''yes'');
          guard = (yn (s ''guard_open'') = ''yes'')
      in if panel \<and> machine then (True, ''panel_open_while_operating'')
         else if guard \<and> machine then (True, ''guard_open_while_operating'')
         else if prox \<and> machine then (True, ''unsafe_proximity_while_operating'')
         else if restricted then (True, ''restricted_area_entry'')
         else if walkway then (True, ''walkway_violation'')
         else (False, []))"

text \<open>The attributes \<open>_cooldown_s\<close> and \<open>_last_emit\<close> of the agent.\<close>

record ThinkerAgent =
  cooldown_s :: real
  last_emit :: "string \<rightharpoonup> real"

definition ThinkerAgent_init :: ThinkerAgent where
  "ThinkerAgent_init = \<lparr>cooldown_s = 4, last_emit = Map.empty\<rparr>"

definition cooldown_ok :: "real \<Rightarrow> string \<Rightarrow> ThinkerAgent \<Rightarrow> bool \<times> ThinkerAgent" where
  "cooldown_ok now key th =
     (let last = (case last_emit th key of Some v \<Rightarrow> v | None \<Rightarrow> 0)
      in if now - last < cooldown_s th then (False, th)
         else (True, th\<lparr>last_emit := (last_emit th)(key \<mapsto> now)\<rparr>))"

definition dedup_key :: "string \<Rightarrow> string \<Rightarrow> string" where
  "dedup_key camera_id rule = camera_id @ '':'' @ rule"

text \<open>
  The head of \<open>handle_observation\<close>, up to the cooldown test: the result is the rule with which
  the observation goes on to be decided, or \<open>None\<close> when the method returns before.
\<close>

definition thinker_gate ::
  "real \<Rightarrow> string \<Rightarrow> pydict \<Rightarrow> ThinkerAgent \<Rightarrow> string option \<times> ThinkerAgent" where
  "thinker_gate now camera_id signals th =
     (case should_trigger signals of
        (False, rule) \<Rightarrow> (None, th)
      | (True, rule) \<Rightarrow>
          (case cooldown_ok now (dedup_key camera_id rule) th of
             (False, th') \<Rightarrow> (None, th')
           | (True, th') \<Rightarrow> (Some rule, th')))"


section \<open>Tool calls (tools/base.py, tools/sop_lookup.py)\<close>

record 'd ToolResult =
  tr_ok :: bool
  tr_data :: "'d option"
  tr_error_type :: "string option"
  tr_error :: "string option"
  tr_latency_ms :: int
  tr_retryable :: bool

text \<open>
  \<open>call_tool\<close>: \<open>fn()\<close> has returned \<open>Inr data\<close> or raised \<open>Inl e\<close> (the text of the
  exception), and \<open>lat\<close> is the elapsed time in milliseconds, measured after the call.
\<close>

definition call_tool :: "string \<Rightarrow> string + 'd \<Rightarrow> int \<Rightarrow> int \<Rightarrow> 'd ToolResult" where
  "call_tool name res lat timeout_ms =
     (case res of
        Inr data \<Rightarrow>
          (if lat > timeout_ms
           then \<lparr>tr_ok = False, tr_data = None, tr_error_type = Some ''timeout'',
                 tr_error = Some (name @ '' exceeded timeout''), tr_latency_ms = lat,
                 tr_retryable = True\<rparr>
           else \<lparr>tr_ok = True, tr_data = Some data, tr_error_type = None, tr_error = None,
                 tr_latency_ms = lat, tr_retryable = False\<rparr>)
      | Inl e \<Rightarrow>
          \<lparr>tr_ok = False, tr_data = None, tr_error_type = Some ''dependency'',
           tr_error = Some e, tr_latency_ms = lat, tr_retryable = True\<rparr>)"

text \<open>
  The data of a successful \<open>sop_lookup\<close> call is the dict \<open>{"hits": [...], "count": n}\<close>, never
  empty and so always truthy; it is modelled by the list under \<open>"hits"\<close>. An item of the list
  is \<open>None\<close> when it is not a dict (the thinker tests it), else its \<open>id\<close> and \<open>text\<close> entries.
\<close>

record hit =
  hit_id :: "pyval option"
  hit_text :: "pyval option"

type_synonym sop_data = "hit option list"

record citation =
  cit_source :: string
  cit_id :: "pyval option"
  cit_text :: "pyval option"


section \<open>ThinkerAgent: from the lookup result to the published decision (agents/thinker.py)\<close>

record action =
  a_type :: string
  a_target :: string
  a_priority :: string
  a_message :: string

text \<open>The action as the dict that is stored in the decision.\<close>

definition action_dict :: "action \<Rightarrow> pydict" where
  "action_dict a =
     [''type'' \<mapsto> PStr (a_type a), ''target'' \<mapsto> PStr (a_target a),
      ''priority'' \<mapsto> PStr (a_priority a), ''message'' \<mapsto> PStr (a_message a)]"

text \<open>\<open>str(d.get(k, dflt) or alt)\<close>.\<close>

definition str_or :: "pydict \<Rightarrow> string \<Rightarrow> string \<Rightarrow> string \<Rightarrow> string" where
  "str_or d k dflt alt =
     (let v = dict_get d k (PStr dflt) in if py_truthy v then py_str v else alt)"

text \<open>
  \<open>_normalize_actions\<close>: the argument is \<open>None\<close> when it is not a list, and an item of the
  list is \<open>None\<close> when it is not a dict.
\<close>

definition normalize_action :: "pydict \<Rightarrow> action" where
  "normalize_action a =
     \<lparr>a_type = canonical_action_type (py_str (dict_get a ''type'' (PStr []))),
      a_target = str_or a ''target'' ''console'' ''console'',
      a_priority = canonical_priority (py_str (dict_get a ''priority'' (PStr []))),
      a_message = strip (str_or a ''message'' [] ''Action recommended.'')\<rparr>"

definition normalize_actions :: "pydict option list option \<Rightarrow> action list" where
  "normalize_actions actions =
     (case actions of
        None \<Rightarrow> []
      | Some xs \<Rightarrow> take 1 (map normalize_action (List.map_filter id xs)))"

text \<open>
  The decoded model output \<open>out\<close>, as the thinker reads it. \<open>out_assessment\<close> is the value under
  \<open>"assessment"\<close> when it is a dict, \<open>out_recommended_actions\<close> the value under
  \<open>"recommended_actions"\<close> when it is a list. Three expressions over \<open>out\<close> can raise, and their
  values are part of the record, \<open>None\<close> standing for the exception:
  \<open>float(assessment.get("confidence", 0.0) or 0.0)\<close> (\<open>out_confidence\<close>),
  \<open>(out.get("rationale", {}) or {}).get("short", "LLM decision.")\<close> (\<open>out_rationale_short\<close>), and
  whether \<open>DecisionEvent\<close> accepts \<open>out.get("evidence", ...)\<close> as a dict (\<open>out_evidence_ok\<close>).
\<close>

record thinker_out =
  out_assessment :: "pydict option"
  out_recommended_actions :: "pydict option list option"
  out_confidence :: "real option"
  out_rationale_short :: "pyval option"
  out_evidence_ok :: bool

text \<open>
  What the model call gives: no model is configured (\<open>self.model is None\<close>), the call raises,
  or it returns text that \<open>_parse_json_soft\<close> decodes (\<open>Some out\<close>) or fails to decode.
\<close>

datatype 'o reply = NoModel | Raised | Reply "'o option"

text \<open>The output used in stub mode, and the fallback of \<open>_parse_json_soft\<close>.\<close>

definition stub_out :: "string \<Rightarrow> thinker_out" where
  "stub_out rule =
     \<lparr>out_assessment =
        Some [''violation'' \<mapsto> PObj True ''True'', ''rule_id'' \<mapsto> PStr rule,
              ''severity'' \<mapsto> PStr ''medium'', ''confidence'' \<mapsto> PObj True ''0.6'',
              ''risk'' \<mapsto> PStr ''stub_mode''],
      out_recommended_actions =
        Some [Some [''type'' \<mapsto> PStr ''alert'', ''target'' \<mapsto> PStr ''console'',
                    ''message'' \<mapsto> PStr (''Investigate: '' @ rule), ''priority'' \<mapsto> PStr ''P2'']],
      out_confidence = Some (6 / 10),
      out_rationale_short = Some (PStr ''Stub mode decision.''),
      out_evidence_ok = True\<rparr>"

definition parse_fail_out :: thinker_out where
  "parse_fail_out =
     \<lparr>out_assessment =
        Some [''violation'' \<mapsto> PObj False ''False'', ''rule_id'' \<mapsto> PStr ''other'',
              ''severity'' \<mapsto> PStr ''low'', ''confidence'' \<mapsto> PObj False ''0.0'',
              ''risk'' \<mapsto> PStr ''unparsed_llm_output''],
      out_recommended_actions = Some [],
      out_confidence = Some 0,
      out_rationale_short = Some (PStr ''Model output could not be parsed.''),
      out_evidence_ok = True\<rparr>"

text \<open>
  The fields of \<open>ObservationEvent\<close> and \<open>DecisionEvent\<close> that the modelled code reads or
  writes; identifiers, tracing ids, time stamps, evidence and model metadata are left out.
  The confidence, a float, is kept beside the string-valued entries of the assessment.
\<close>

record ObservationEvent =
  obs_trace_id :: string
  obs_camera_id :: string
  obs_clip_index :: int
  obs_signals :: pydict

record DecisionEvent =
  d_trace_id :: string
  d_camera_id :: string
  d_clip_index :: int
  d_assessment :: pydict
  d_confidence :: real
  d_recommended_actions :: "pydict list"
  d_rationale_short :: pyval
  d_citations :: "citation list"

text \<open>
  The message of a degraded action. The dash of the source literal is U+2014, written here as
  the three bytes of its UTF-8 encoding.
\<close>

definition grounding_unavailable_message :: string where
  "grounding_unavailable_message =
     ''Potential high-risk event detected; policy grounding unavailable'' @
     [CHR 0xE2, CHR 0x80, CHR 0x94] @
     ''alert supervisor to verify before stopping line.''"

text \<open>
  The \<open>_audit_emit\<close> calls between the lookup and the publication, in the order they are made:
  \<open>tool_error\<close> for a failed lookup, \<open>health\<close> \<open>llm_call\<close> with \<open>parse_ok\<close>, \<open>health\<close>
  \<open>degradation\<close> with the rule, \<open>decision\<close> with the decision, and \<open>tool_error\<close>
  \<open>thinker_exception\<close> from the \<open>except\<close> clause.
\<close>

datatype thinker_audit =
  ToolErrorAudit
  | LlmCallAudit bool
  | DegradationAudit string
  | DecisionAudit DecisionEvent
  | ExceptionAudit

datatype thinker_outcome = Returned | Published DecisionEvent | Failed

text \<open>The citations built from the lookup result: at most three, one per dict among \<open>hits[:3]\<close>.\<close>

definition citations_of :: "sop_data ToolResult \<Rightarrow> citation list" where
  "citations_of tool_res =
     (case tr_data tool_res of
        Some hits \<Rightarrow>
          (if tr_ok tool_res
           then map (\<lambda>h. \<lparr>cit_source = ''sop_lookup'', cit_id = hit_id h, cit_text = hit_text h\<rparr>)
                  (List.map_filter id (take 3 hits))
           else [])
      | None \<Rightarrow> [])"

text \<open>
  \<open>handle_observation\<close> from the normalization of the output (line 298) to \<open>bus.publish\<close>
  (line 344). The result is the outcome (the method returned early, published a decision, or
  went through its \<open>except\<close> clause) and the audit records emitted on the way.
\<close>

definition thinker_publish ::
  "ObservationEvent \<Rightarrow> string \<Rightarrow> sop_data ToolResult \<Rightarrow> citation list \<Rightarrow> thinker_out
     \<Rightarrow> thinker_outcome \<times> thinker_audit list" where
  "thinker_publish obs rule tool_res citations out =
     (let assessment = (case out_assessment out of Some d \<Rightarrow> d | None \<Rightarrow> Map.empty);
          actions = normalize_actions (out_recommended_actions out)
      in if \<not> py_truthy (dict_get assessment ''violation'' (PObj False ''False'')) \<or> actions = []
         then (Returned, [])
         else
           (case actions of
              [] \<Rightarrow> (Returned, [])
            | a # rest \<Rightarrow>
                (let grounding_ok = (tr_ok tool_res \<and> citations \<noteq> []);
                     degrade = (\<not> grounding_ok \<and> a_type a = ''stop_line'');
                     actions' =
                       (if degrade
                        then a\<lparr>a_type := ''alert'', a_priority := ''P1'',
                               a_message := grounding_unavailable_message\<rparr> # rest
                        else a # rest);
                     audit = (if degrade then [DegradationAudit rule] else [])
                 in case out_confidence out of
                      None \<Rightarrow> (Failed, audit @ [ExceptionAudit])
                    | Some conf \<Rightarrow>
                        (case out_rationale_short out of
                           None \<Rightarrow> (Failed, audit @ [ExceptionAudit])
                         | Some short \<Rightarrow>
                             if \<not> out_evidence_ok out then (Failed, audit @ [ExceptionAudit])
                             else
                               (let decision =
                                  \<lparr>d_trace_id = obs_trace_id obs,
                                   d_camera_id = obs_camera_id obs,
                                   d_clip_index = obs_clip_index obs,
                                   d_assessment =
                                     [''violation'' \<mapsto> PObj True ''True'',
                                      ''rule_id'' \<mapsto> PStr (str_or assessment ''rule_id'' rule rule),
                                      ''severity'' \<mapsto>
                                        PStr (str_or assessment ''severity'' ''medium'' ''medium''),
                                      ''risk'' \<mapsto>
                                        PStr (str_or assessment ''risk'' ''safety_risk'' ''safety_risk'')],
                                   d_confidence = conf,
                                   d_recommended_actions = map action_dict actions',
                                   d_rationale_short = short,
                                   d_citations = citations\<rparr>
                                in (Published decision, audit @ [DecisionAudit decision]))))))"

text \<open>
  \<open>handle_observation\<close> from the lookup result (line 200) on: the citations, the output of the
  model call or of stub mode, and the part above.
\<close>

definition thinker_decide ::
  "ObservationEvent \<Rightarrow> string \<Rightarrow> sop_data ToolResult \<Rightarrow> thinker_out reply
     \<Rightarrow> thinker_outcome \<times> thinker_audit list" where
  "thinker_decide obs rule tool_res r =
     (let citations = citations_of tool_res;
          audit1 = (if tr_ok tool_res \<and> tr_data tool_res \<noteq> None then [] else [ToolErrorAudit])
      in case r of
           Raised \<Rightarrow> (Failed, audit1 @ [ExceptionAudit])
         | NoModel \<Rightarrow>
             (case thinker_publish obs rule tool_res citations (stub_out rule) of
                (outcome, audit) \<Rightarrow> (outcome, audit1 @ audit))
         | Reply x \<Rightarrow>
             (let out = (case x of Some out \<Rightarrow> out | None \<Rightarrow> parse_fail_out)
              in case thinker_publish obs rule tool_res citations out of
                   (outcome, audit) \<Rightarrow> (outcome, audit1 @ [LlmCallAudit (x \<noteq> None)] @ audit)))"


text \<open>
  \<open>handle_observation\<close>: the head up to the cooldown test, then, for an observation that passed
  it, the part from the lookup result on. The lookup result and the result of the model call
  are arguments; they are read only when the cooldown test is passed. The result is the
  outcome, the audit records of the second part, and the agent.
\<close>

definition handle_observation ::
  "real \<Rightarrow> ObservationEvent \<Rightarrow> sop_data ToolResult \<Rightarrow> thinker_out reply \<Rightarrow> ThinkerAgent
     \<Rightarrow> thinker_outcome \<times> thinker_audit list \<times> ThinkerAgent" where
  "handle_observation now obs tool_res r th =
     (case thinker_gate now (obs_camera_id obs) (obs_signals obs) th of
        (None, th') \<Rightarrow> (Returned, [], th')
      | (Some rule, th') \<Rightarrow>
          (case thinker_decide obs rule tool_res r of
             (outcome, audit) \<Rightarrow> (outcome, audit, th')))"

text \<open>Whether the decoded output reports a violation: \<open>bool(assessment.get("violation", False))\<close>.\<close>

definition reports_violation :: "thinker_out \<Rightarrow> bool" where
  "reports_violation out =
     py_truthy (dict_get (case out_assessment out of Some d \<Rightarrow> d | None \<Rightarrow> Map.empty)
       ''violation'' (PObj False ''False''))"


section \<open>DoerAgent (agents/doer.py)\<close>

text \<open>
  The value under \<open>"execution_steps"\<close>: a list of strings written by the doer itself, or
  whatever the model output holds under that key.
\<close>

datatype steps = StepsList "string list" | StepsValue pyval

text \<open>
  An action dict of the doer. The keys \<open>execution_steps\<close> and \<open>notes\<close> are absent (\<open>None\<close>) from
  the dicts of \<open>base\<close>.
\<close>

record doer_action =
  da_type :: string
  da_target :: string
  da_priority :: string
  da_message :: string
  da_execution_steps :: "steps option"
  da_notes :: "string option"

text \<open>One iteration of the loop that builds \<open>base\<close>.\<close>

definition base_action :: "pydict \<Rightarrow> doer_action" where
  "base_action a =
     \<lparr>da_type = canonical_action_type (py_str (dict_get a ''type'' (PStr []))),
      da_target = str_or a ''target'' ''console'' ''console'',
      da_priority = canonical_priority (py_str (dict_get a ''priority'' (PStr []))),
      da_message = strip (str_or a ''message'' [] []),
      da_execution_steps = None,
      da_notes = None\<rparr>"

definition default_action :: doer_action where
  "default_action =
     \<lparr>da_type = ''alert'', da_target = ''console'', da_priority = ''P2'',
      da_message = ''Investigate incident.'', da_execution_steps = None, da_notes = None\<rparr>"

definition default_steps :: steps where
  "default_steps = StepsList [''Inspect area'', ''Confirm condition'', ''Log outcome'']"

text \<open>
  The decoded model output of the doer: \<open>do_actions\<close> is the value of \<open>out.get("actions", [])\<close>
  when it is a list (an item is \<open>None\<close> when it is not a dict), and \<open>None\<close> when it is not a
  list. The fallback of the doer's \<open>_parse_json_soft\<close> is \<open>{"actions": []}\<close>.
\<close>

record doer_out =
  do_actions :: "pydict option list option"

text \<open>
  \<open>_enrich_actions\<close>: the result is the action list and \<open>parse_ok\<close> (the latency and the token
  counts are left out), or \<open>None\<close> when the model call raises.
\<close>

definition enrich_actions :: "DecisionEvent \<Rightarrow> doer_out reply \<Rightarrow> (doer_action list \<times> bool) option" where
  "enrich_actions dec r =
     (let base = map base_action (take 1 (d_recommended_actions dec));
          a0 = (case base of b # bs \<Rightarrow> b | [] \<Rightarrow> default_action)
                 \<lparr>da_execution_steps := Some default_steps\<rparr>
      in case r of
           NoModel \<Rightarrow> Some ([a0], True)
         | Raised \<Rightarrow> None
         | Reply x \<Rightarrow>
             (let actions = (case x of Some out \<Rightarrow> do_actions out | None \<Rightarrow> Some []);
                  parse_ok = (x \<noteq> None)
              in case actions of
                   None \<Rightarrow> Some ([a0], False)
                 | Some [] \<Rightarrow> Some ([a0], False)
                 | Some (x0 # xs) \<Rightarrow>
                     (let a = (case x0 of Some d \<Rightarrow> d | None \<Rightarrow> Map.empty);
                          enriched =
                            \<lparr>da_type = canonical_action_type (py_str (dict_get a ''type''
                               (PStr (case base of b # bs \<Rightarrow> da_type b | [] \<Rightarrow> ''alert'')))),
                             da_target = str_or a ''target'' ''console'' ''console'',
                             da_priority = canonical_priority (py_str (dict_get a ''priority''
                               (PStr (case base of b # bs \<Rightarrow> da_priority b | [] \<Rightarrow> ''P2'')))),
                             da_message = strip (str_or a ''message'' []
                               (case base of b # bs \<Rightarrow> da_message b | [] \<Rightarrow> ''Action recommended.'')),
                             da_execution_steps =
                               Some (case a ''execution_steps'' of
                                       Some v \<Rightarrow> StepsValue v
                                     | None \<Rightarrow> StepsList []),
                             da_notes = Some (strip (str_or a ''notes'' [] []))\<rparr>;
                          enriched' =
                            (case base of
                               b # bs \<Rightarrow>
                                 if da_type enriched \<noteq> da_type b
                                 then enriched\<lparr>da_type := da_type b\<rparr>
                                 else enriched
                             | [] \<Rightarrow> enriched)
                      in Some ([enriched'], parse_ok))))"

text \<open>The attribute \<open>_last\<close> of the agent, and \<open>_dedup\<close>.\<close>

record DoerAgent =
  doer_last :: "string \<rightharpoonup> real"

definition dedup :: "real \<Rightarrow> string \<Rightarrow> real \<Rightarrow> DoerAgent \<Rightarrow> bool \<times> DoerAgent" where
  "dedup now key cooldown dr =
     (let last = (case doer_last dr key of Some v \<Rightarrow> v | None \<Rightarrow> 0)
      in if now - last < cooldown then (False, dr)
         else (True, dr\<lparr>doer_last := (doer_last dr)(key \<mapsto> now)\<rparr>))"

record ActionEvent =
  ae_trace_id :: string
  ae_camera_id :: string
  ae_action :: doer_action
  ae_status :: string
  ae_provider :: string
  ae_error :: "string option"

text \<open>
  The outcome of \<open>handle_decision\<close>: the \<open>except\<close> clause was taken, the loop over
  \<open>actions[:1]\<close> had nothing to do, or an \<open>ActionEvent\<close> was recorded and published; the
  second component is \<open>a_type\<close>, the type under which the action is deduplicated and counted.
\<close>

datatype doer_outcome = DoerFailed | NoAction | Acted ActionEvent string

text \<open>The suffix of the fallback message; the arrow U+2192 is written as its UTF-8 bytes.\<close>

definition fallback_suffix :: string where
  "fallback_suffix = '' (Dispatcher down '' @ [CHR 0xE2, CHR 0x86, CHR 0x92] @ '' fallback)''"

text \<open>
  \<open>handle_decision\<close>, with the result \<open>disp\<close> of \<open>call_tool("dispatcher", ...)\<close> as an argument;
  it is read only when the action is not suppressed by \<open>_dedup\<close>.
\<close>

definition handle_decision ::
  "real \<Rightarrow> DecisionEvent \<Rightarrow> doer_out reply \<Rightarrow> 'd ToolResult \<Rightarrow> DoerAgent
     \<Rightarrow> doer_outcome \<times> DoerAgent" where
  "handle_decision now dec r disp dr =
     (let sev = lower (py_str (dict_get (d_assessment dec) ''severity'' (PStr ''low'')));
          base_key = d_camera_id dec @ '':'' @ sev
      in case enrich_actions dec r of
           None \<Rightarrow> (DoerFailed, dr)
         | Some (actions, parse_ok) \<Rightarrow>
             (case take 1 actions of
                [] \<Rightarrow> (NoAction, dr)
              | a # as \<Rightarrow>
                  (let a_type = canonical_action_type (da_type a);
                       dedup_key = base_key @ '':'' @ a_type
                   in case dedup now dedup_key 20 dr of
                        (False, dr') \<Rightarrow>
                          (Acted \<lparr>ae_trace_id = d_trace_id dec, ae_camera_id = d_camera_id dec,
                                  ae_action = a, ae_status = ''skipped'', ae_provider = ''dedup'',
                                  ae_error = None\<rparr> a_type, dr')
                      | (True, dr') \<Rightarrow>
                          if tr_ok disp
                          then (Acted \<lparr>ae_trace_id = d_trace_id dec, ae_camera_id = d_camera_id dec,
                                        ae_action = a, ae_status = ''sent'',
                                        ae_provider = ''dispatcher'', ae_error = None\<rparr> a_type, dr')
                          else (Acted \<lparr>ae_trace_id = d_trace_id dec, ae_camera_id = d_camera_id dec,
                                        ae_action = a\<lparr>da_target := ''pager'',
                                          da_message := da_message a @ fallback_suffix\<rparr>,
                                        ae_status = ''failed'', ae_provider = ''dispatcher'',
                                        ae_error =
                                          Some (case tr_error disp of
                                                  Some e \<Rightarrow> if e \<noteq> [] then e else ''dispatcher_failed''
                                                | None \<Rightarrow> ''dispatcher_failed'')\<rparr> a_type, dr'))))"


section \<open>Watchdog (runtime/watchdog.py)\<close>

text \<open>
  \<open>SLO_BY_STAGE\<close> gives the name of a \<open>Settings\<close> attribute, read by \<open>getattr\<close>; the table
  here gives the accessor of that attribute.
\<close>

definition SLO_BY_STAGE :: "string \<rightharpoonup> (Settings \<Rightarrow> int)" where
  "SLO_BY_STAGE =
     [''observer'' \<mapsto> slo_observer_ms, ''thinker'' \<mapsto> slo_thinker_ms,
      ''doer'' \<mapsto> slo_doer_ms, ''dispatcher'' \<mapsto> slo_dispatcher_ms]"

text \<open>The attributes \<open>cfg\<close> and \<open>_fired\<close> of the watchdog.\<close>

record Watchdog =
  wd_cfg :: Settings
  fired :: "string \<rightharpoonup> real"

definition Watchdog_init :: "Settings \<Rightarrow> Watchdog" where
  "Watchdog_init cfg = \<lparr>wd_cfg = cfg, fired = Map.empty\<rparr>"

text \<open>
  The payload of a \<open>stage_timeout\<close> audit record, without its three constant entries
  (\<open>event\<close>, \<open>impact\<close>, \<open>runbook\<close>).
\<close>

record breach =
  br_stage :: string
  br_trace_id :: string
  br_clip_index :: int
  br_elapsed_ms :: int
  br_slo_ms :: int

definition stage_breach :: "real \<Rightarrow> int \<Rightarrow> StageInFlight \<Rightarrow> breach" where
  "stage_breach now slo_ms sif =
     \<lparr>br_stage = stage sif, br_trace_id = sif_trace_id sif, br_clip_index = clip_index sif,
      br_elapsed_ms = py_int ((now - start_ts sif) * 1000), br_slo_ms = slo_ms\<rparr>"

text \<open>
  One iteration of the loop of \<open>_tick\<close> over the snapshot: the state is \<open>_fired\<close> and the
  breach records emitted so far, each paired with the key of the in-flight entry it is for.
\<close>

definition tick_entry ::
  "real \<Rightarrow> Settings \<Rightarrow> (string \<rightharpoonup> real) \<times> (string \<times> breach) list \<Rightarrow> string \<times> StageInFlight
     \<Rightarrow> (string \<rightharpoonup> real) \<times> (string \<times> breach) list" where
  "tick_entry now cfg acc entry =
     (case acc of (f, out) \<Rightarrow>
      case entry of (key, sif) \<Rightarrow>
        (case SLO_BY_STAGE (stage sif) of
           None \<Rightarrow> (f, out)
         | Some slo_attr \<Rightarrow>
             (let slo_ms = slo_attr cfg;
                  elapsed_ms = py_int ((now - start_ts sif) * 1000)
              in if elapsed_ms < slo_ms then (f, out)
                 else
                   (let last = (case f key of Some v \<Rightarrow> v | None \<Rightarrow> 0)
                    in if now - last < 10 then (f, out)
                       else (f(key \<mapsto> now), out @ [(key, stage_breach now slo_ms sif)])))))"

definition tick :: "real \<Rightarrow> RuntimeState \<Rightarrow> Watchdog \<Rightarrow> Watchdog \<times> (string \<times> breach) list" where
  "tick now st wd =
     (case foldl (tick_entry now (wd_cfg wd)) (fired wd, []) (inflight st) of
        (f, out) \<Rightarrow> (wd\<lparr>fired := f\<rparr>, out))"

text \<open>
  The loop of \<open>run\<close>: one \<open>_tick\<close> per poll. A poll is the clock value that the tick reads
  and the runtime state that it finds; the result lists the breach records of each poll.
\<close>

fun polls ::
  "(real \<times> RuntimeState) list \<Rightarrow> Watchdog \<Rightarrow> Watchdog \<times> (string \<times> breach) list list" where
  "polls [] wd = (wd, [])"
| "polls ((now, st) # ps) wd =
     (case tick now st wd of
        (wd1, out) \<Rightarrow> (case polls ps wd1 of (wd2, outs) \<Rightarrow> (wd2, out # outs)))"

text \<open>The breach records of a poll that are for one key.\<close>

definition breaches_of :: "string \<Rightarrow> (string \<times> breach) list \<Rightarrow> (string \<times> breach) list" where
  "breaches_of key out = filter (\<lambda>(k, b). k = key) out"

text \<open>
  Polls at the fixed interval of \<open>time.sleep(0.25)\<close>: poll \<open>k\<close>, for \<open>j \<le> k < j + n\<close>, reads
  the clock value \<open>t0 + k / 4\<close> and finds the state \<open>sts k\<close>.
\<close>

definition schedule :: "real \<Rightarrow> (nat \<Rightarrow> RuntimeState) \<Rightarrow> nat \<Rightarrow> nat \<Rightarrow> (real \<times> RuntimeState) list" where
  "schedule t0 sts j n = map (\<lambda>k. (t0 + real k / 4, sts k)) [j..<j + n]"


section \<open>Properties of the string primitives\<close>

lemmas string_defs =
  replace_def lower_def upper_def strip_def py_isspace_def lower_char_def upper_char_def
  ascii_upper_def ascii_lower_def ascii_whitespace_def

lemma lower_char_idem: "lower_char (lower_char c) = lower_char c"
  unfolding lower_char_def ascii_upper_def ascii_lower_def by simp


lemma isspace_lower_char: "py_isspace (lower_char c) = py_isspace c"
  unfolding lower_char_def py_isspace_def ascii_upper_def ascii_lower_def ascii_whitespace_def
  by simp


lemma lower_char_dash: "(lower_char c = CHR ''-'') = (c = CHR ''-'')"
  unfolding lower_char_def ascii_upper_def ascii_lower_def by simp

lemma lower_char_blank: "(lower_char c = CHR '' '') = (c = CHR '' '')"
  unfolding lower_char_def ascii_upper_def ascii_lower_def by simp

lemma lower_char_underscore: "lower_char (CHR ''_'') = CHR ''_''"
  unfolding lower_char_def ascii_upper_def ascii_lower_def by simp

lemma key_char_idem: "key_char (key_char c) = key_char c"
  unfolding key_char_def Let_def
  by (simp add: lower_char_idem lower_char_dash lower_char_blank lower_char_underscore)

lemma key_char_not_space: "\<not> py_isspace c \<Longrightarrow> \<not> py_isspace (key_char c)"
  unfolding key_char_def Let_def
  by (simp add: isspace_lower_char) (simp add: py_isspace_def ascii_whitespace_def)



lemma dropWhile_hd_self: "xs = [] \<or> \<not> P (hd xs) \<Longrightarrow> dropWhile P xs = xs"
  by (cases xs) auto

lemma dropWhile_ends: "dropWhile P xs = [] \<or> \<not> P (hd (dropWhile P xs))"
  by (induction xs) auto


lemma strip_ends:
  "strip t = [] \<or> (\<not> py_isspace (hd (strip t)) \<and> \<not> py_isspace (last (strip t)))"
proof (cases "strip t = []")
  case True
  then show ?thesis by simp
next
  case False
  define u where "u = dropWhile py_isspace t"
  define w where "w = dropWhile py_isspace (rev u)"
  have st: "strip t = rev w"
    by (simp add: strip_def u_def w_def)
  from False st have wne: "w \<noteq> []" by simp
  have "w = [] \<or> \<not> py_isspace (hd w)"
    unfolding w_def by (rule dropWhile_ends)
  with wne have "\<not> py_isspace (hd w)" by blast
  then have l: "\<not> py_isspace (last (strip t))"
    using wne by (simp add: st last_rev)
  obtain v where v: "rev u = v @ w"
    unfolding w_def by (metis takeWhile_dropWhile_id)
  then have uw: "u = rev w @ rev v"
    by (metis rev_append rev_rev_ident)
  then have "hd u = hd (rev w)"
    using wne by simp
  moreover have "u \<noteq> []"
    using uw wne by simp
  moreover have "u = [] \<or> \<not> py_isspace (hd u)"
    unfolding u_def by (rule dropWhile_ends)
  ultimately have "\<not> py_isspace (hd (strip t))"
    by (simp add: st)
  with l show ?thesis by simp
qed

lemma strip_fixed:
  assumes "xs = [] \<or> (\<not> py_isspace (hd xs) \<and> \<not> py_isspace (last xs))"
  shows "strip xs = xs"
proof (cases "xs = []")
  case True
  then show ?thesis by (simp add: strip_def)
next
  case False
  with assms have h: "\<not> py_isspace (hd xs)" and l: "\<not> py_isspace (last xs)" by auto
  have a: "dropWhile py_isspace xs = xs"
    using h by (simp add: dropWhile_hd_self)
  have "hd (rev xs) = last xs"
    using False by (simp add: hd_rev)
  then have b: "dropWhile py_isspace (rev xs) = rev xs"
    using l by (simp add: dropWhile_hd_self)
  show ?thesis by (simp add: strip_def a b)
qed

lemma strip_Nil: "strip [] = []"
  by (simp add: strip_def)

lemma strip_map_strip:
  assumes "\<And>c. \<not> py_isspace c \<Longrightarrow> \<not> py_isspace (f c)"
  shows "strip (map f (strip t)) = map f (strip t)"
proof (cases "strip t = []")
  case True
  then show ?thesis by (simp add: strip_Nil)
next
  case False
  with strip_ends [of t]
  have h: "\<not> py_isspace (hd (strip t))" and l: "\<not> py_isspace (last (strip t))"
    by blast+
  have "\<not> py_isspace (f (hd (strip t)))" "\<not> py_isspace (f (last (strip t)))"
    using h l assms by blast+
  then have "\<not> py_isspace (hd (map f (strip t))) \<and> \<not> py_isspace (last (map f (strip t)))"
    using False by (simp add: hd_map last_map)
  then show ?thesis
    by (intro strip_fixed disjI2)
qed

lemma strip_idem: "strip (strip t) = strip t"
  using strip_map_strip [of id t] by simp


section \<open>Properties of the canonicalization\<close>

lemma action_type_key_map: "action_type_key t = map key_char (strip t)"
  by (simp add: action_type_key_def replace_def lower_def key_char_def Let_def)

lemma canonical_action_type_key:
  "canonical_action_type t =
     (if action_type_key t \<in> stop_synonyms then ''stop_line''
      else if action_type_key t \<in> alert_synonyms \<or> action_type_key t = [] then ''alert''
      else action_type_key t)"
  by (simp add: canonical_action_type_def action_type_key_def Let_def)

lemma action_type_key_idem: "action_type_key (action_type_key t) = action_type_key t"
proof -
  have "strip (map key_char (strip t)) = map key_char (strip t)"
    by (rule strip_map_strip) (rule key_char_not_space)
  then show ?thesis
    by (simp add: action_type_key_map key_char_idem)
qed

lemma action_type_key_stop_line: "action_type_key ''stop_line'' = ''stop_line''"
  by (simp add: action_type_key_def string_defs)

lemma action_type_key_alert: "action_type_key ''alert'' = ''alert''"
  by (simp add: action_type_key_def string_defs)

lemma canonical_action_type_idem:
  "canonical_action_type (canonical_action_type t) = canonical_action_type t"
proof -
  have s: "canonical_action_type ''stop_line'' = ''stop_line''"
    by (simp add: canonical_action_type_key action_type_key_stop_line stop_synonyms_def)
  have a: "canonical_action_type ''alert'' = ''alert''"
    by (simp add: canonical_action_type_key action_type_key_alert stop_synonyms_def
        alert_synonyms_def)
  have k: "canonical_action_type (action_type_key t) =
      (if action_type_key t \<in> stop_synonyms then ''stop_line''
       else if action_type_key t \<in> alert_synonyms \<or> action_type_key t = [] then ''alert''
       else action_type_key t)"
    by (subst canonical_action_type_key) (simp only: action_type_key_idem)
  show ?thesis
  proof (cases "action_type_key t \<in> stop_synonyms")
    case True
    then show ?thesis by (simp add: canonical_action_type_key [of t] s)
  next
    case ns: False
    show ?thesis
    proof (cases "action_type_key t \<in> alert_synonyms \<or> action_type_key t = []")
      case True
      with ns show ?thesis by (simp add: canonical_action_type_key [of t] a)
    next
      case False
      with ns have "canonical_action_type t = action_type_key t"
        by (simp add: canonical_action_type_key [of t])
      with ns False k show ?thesis by simp
    qed
  qed
qed





section \<open>Properties of the components\<close>

subsection \<open>RuntimeState\<close>

lemma mark_same:
  "kind \<in> set milestones \<Longrightarrow> milestone_ts kind (trace_ts (mark now tr kind st) tr) = Some now"
  by (auto simp: milestones_def mark_def trace_ts_def milestone_ts_def Let_def)

lemma mark_other_kind:
  "k \<noteq> kind \<Longrightarrow> milestone_ts k (trace_ts (mark now tr kind st) tr) = milestone_ts k (trace_ts st tr)"
  by (auto simp: mark_def trace_ts_def milestone_ts_def Let_def TraceTimestamps_init_def
      split: option.splits)

lemma mark_other_trace:
  "tr' \<noteq> tr \<Longrightarrow> ts (mark now tr kind st) tr' = ts st tr'"
  by (simp add: mark_def Let_def)

lemma mark_inflight: "inflight (mark now tr kind st) = inflight st"
  by (simp add: mark_def Let_def)

lemma marks_snoc: "marks (calls @ [(now, tr, k)]) st = mark now tr k (marks calls st)"
  by (simp add: marks_def)

lemma last_mark_snoc:
  "last_mark tr k (calls @ [(now, tr', k')]) =
     (if tr' = tr \<and> k' = k then Some now else last_mark tr k calls)"
  by (simp add: last_mark_def Let_def)

lemma marks_latest:
  assumes "kind \<in> set milestones"
  shows "milestone_ts kind (trace_ts (marks calls st) tr) =
     (case last_mark tr kind calls of
        Some now \<Rightarrow> Some now
      | None \<Rightarrow> milestone_ts kind (trace_ts st tr))"
proof (induction calls rule: rev_induct)
  case Nil
  show ?case by (simp add: marks_def last_mark_def)
next
  case (snoc c calls)
  obtain now tr' k' where c: "c = (now, tr', k')" by (cases c)
  show ?case
  proof (cases "tr' = tr")
    case True
    show ?thesis
    proof (cases "k' = kind")
      case True
      with \<open>tr' = tr\<close> assms show ?thesis
        by (simp add: c marks_snoc last_mark_snoc mark_same)
    next
      case False
      with \<open>tr' = tr\<close> snoc show ?thesis
        by (simp add: c marks_snoc last_mark_snoc mark_other_kind)
    qed
  next
    case False
    then have "trace_ts (mark now tr' k' (marks calls st)) tr = trace_ts (marks calls st) tr"
      by (simp add: trace_ts_def mark_other_trace)
    with False snoc show ?thesis
      by (simp add: c marks_snoc last_mark_snoc)
  qed
qed


lemma py_int_close: "\<bar>real_of_int (py_int x) - x\<bar> < 1"
  unfolding py_int_def by (simp split: if_splits) linarith

lemma py_int_nonneg_iff: "(0 \<le> py_int x) = (- 1 < x)"
  unfolding py_int_def by (auto simp: ceiling_le_iff le_ceiling_iff)

lemma py_int_mono_nonneg: "0 \<le> x \<Longrightarrow> 0 \<le> py_int x"
  by (simp add: py_int_def)


subsection \<open>AuditBuffer\<close>

lemma deque_append_drop:
  assumes "length xs \<le> n"
  shows "deque_append n xs x = drop (length (xs @ [x]) - n) (xs @ [x])"
proof (cases "length xs = n")
  case True
  then have a: "length (xs @ [x]) - n = Suc 0" and b: "n < length (xs @ [x])"
    by simp_all
  have "deque_append n xs x = tl (xs @ [x])"
    using b by (simp add: deque_append_def Let_def)
  also have "\<dots> = drop (Suc 0) (xs @ [x])"
    by (simp only: drop_Suc drop_0)
  finally show ?thesis
    by (simp only: a)
next
  case False
  with assms have "length xs < n" by simp
  then show ?thesis
    by (simp add: deque_append_def Let_def)
qed

lemma deque_append_length: "length xs \<le> n \<Longrightarrow> length (deque_append n xs x) \<le> n"
  by (cases xs) (auto simp: deque_append_def Let_def)

lemma adds_snoc:
  "adds (calls @ [c]) buf =
     fst (add (fst c) (fst (snd c)) (fst (snd (snd c))) (fst (snd (snd (snd c))))
       (snd (snd (snd (snd c)))) (adds calls buf))"
  by (simp add: adds_def case_prod_beta)

lemma add_events:
  "events (fst (add eid now knd tid pl buf)) =
     deque_append (maxlen buf) (events buf) (inserted (eid, now, knd, tid, pl))"
  by (simp add: add_def inserted_def Let_def)

lemma add_maxlen: "maxlen (fst (add eid now knd tid pl buf)) = maxlen buf"
  by (simp add: add_def Let_def)

lemma adds_maxlen: "maxlen (adds calls buf) = maxlen buf"
  by (induction calls rule: rev_induct) (simp_all add: adds_def add_maxlen case_prod_beta)

lemma adds_length:
  "length (events buf) \<le> maxlen buf \<Longrightarrow> length (events (adds calls buf)) \<le> maxlen buf"
proof (induction calls rule: rev_induct)
  case Nil
  then show ?case by (simp add: adds_def)
next
  case (snoc c calls)
  then have "length (events (adds calls buf)) \<le> maxlen (adds calls buf)"
    by (simp add: adds_maxlen)
  then show ?case
    by (simp only: adds_snoc add_events) (metis deque_append_length adds_maxlen)
qed

lemma window_snoc:
  fixes xs :: "'a list" and n :: nat
  defines "ys \<equiv> drop (length xs - n) xs"
  shows "drop (length (ys @ [x]) - n) (ys @ [x]) = drop (length (xs @ [x]) - n) (xs @ [x])"
proof (cases "length xs \<le> n")
  case True
  then show ?thesis by (simp add: ys_def)
next
  case False
  then have l: "length ys = n" and k: "length xs - n \<le> length xs"
    by (simp_all add: ys_def)
  have "ys @ [x] = drop (length xs - n) (xs @ [x])"
    using k by (simp add: ys_def)
  moreover have "length (ys @ [x]) - n = Suc 0"
    using l by simp
  moreover have "length (xs @ [x]) - n = Suc (length xs - n)"
    using False by simp
  ultimately show ?thesis
    by (simp only: drop_drop) simp
qed

lemma adds_events:
  assumes "length (events buf) \<le> maxlen buf"
  shows "events (adds calls buf) =
    drop (length (events buf @ map inserted calls) - maxlen buf) (events buf @ map inserted calls)"
proof (induction calls rule: rev_induct)
  case Nil
  with assms show ?case by (simp add: adds_def)
next
  case (snoc c calls)
  obtain eid now knd tid pl where c: "c = (eid, now, knd, tid, pl)"
    by (cases c)
  let ?all = "events buf @ map inserted calls"
  have len: "length (events (adds calls buf)) \<le> maxlen buf"
    using assms by (rule adds_length)
  have "events (adds (calls @ [c]) buf) =
      deque_append (maxlen buf) (events (adds calls buf)) (inserted c)"
    by (simp add: adds_snoc add_events adds_maxlen c)
  also have "\<dots> = drop (length (events (adds calls buf) @ [inserted c]) - maxlen buf)
      (events (adds calls buf) @ [inserted c])"
    using len by (rule deque_append_drop)
  also have "\<dots> = drop (length (?all @ [inserted c]) - maxlen buf) (?all @ [inserted c])"
    unfolding snoc.IH by (rule window_snoc)
  finally show ?case by simp
qed

lemma recent_full:
  assumes "length (events buf) \<le> maxlen buf" and "maxlen buf < length calls"
  shows "recent (int (maxlen buf)) (adds calls buf) = take (maxlen buf) (rev (map inserted calls))"
proof -
  let ?n = "maxlen buf"
  let ?all = "events buf @ map inserted calls"
  have ev: "events (adds calls buf) = drop (length ?all - ?n) ?all"
    using assms(1) by (rule adds_events)
  have "length ?all - ?n \<ge> length (events buf)"
    using assms by simp
  then have ev2: "events (adds calls buf) = drop (length calls - ?n) (map inserted calls)"
    using assms by (simp add: ev)
  then have len: "length (events (adds calls buf)) = ?n"
    using assms(2) by simp
  have r: "rev (events (adds calls buf)) = take ?n (rev (map inserted calls))"
    using assms(2) by (simp add: ev2 rev_drop)
  show ?thesis
  proof (cases "?n = 0")
    case True
    with len show ?thesis by (simp add: recent_def Let_def)
  next
    case False
    then have "nat (max 1 (int ?n)) = ?n" by simp
    then show ?thesis
      by (simp add: recent_def Let_def len r del: max.absorb1 max.absorb2 max.absorb3 max.absorb4)
  qed
qed

subsection \<open>KPI\<close>

lemma kpi_step_outcomes:
  "acc_sent (kpi_step a c) + acc_failed (kpi_step a c) + acc_skipped (kpi_step a c) =
     acc_sent c + acc_failed c + acc_skipped c + (if counted_status a then 1 else 0)"
  by (simp add: kpi_step_def counted_status_def status_text_def Let_def split: option.splits)

lemma kpi_loop_outcomes:
  "acc_sent (foldl (\<lambda>c a. kpi_step a c) c xs) + acc_failed (foldl (\<lambda>c a. kpi_step a c) c xs) +
     acc_skipped (foldl (\<lambda>c a. kpi_step a c) c xs) =
   acc_sent c + acc_failed c + acc_skipped c + length (filter counted_status xs)"
proof (induction xs arbitrary: c)
  case Nil
  show ?case by simp
next
  case (Cons a xs)
  show ?case
    by (simp only: foldl_Cons Cons.IH kpi_step_outcomes) simp
qed

lemma kpi_outcomes:
  "kpi_action_sent (kpi buf) + kpi_action_failed (kpi buf) + kpi_action_skipped (kpi buf) =
     length (filter counted_status (filter (\<lambda>x. ev_kind x = ''action'') (events buf)))"
  using kpi_loop_outcomes [of kpi_counts_init "filter (\<lambda>x. ev_kind x = ''action'') (events buf)"]
  by (simp add: kpi_def Let_def kpi_counts_init_def)

lemma kpi_actions_count:
  "kpi_actions (kpi buf) = length (filter (\<lambda>x. ev_kind x = ''action'') (events buf))"
  by (simp add: kpi_def Let_def)

lemma filter_length_eq_iff: "(length (filter P xs) = length xs) = (\<forall>x \<in> set xs. P x)"
  by (metis filter_id_conv length_filter_less less_irrefl)


subsection \<open>GameDayController\<close>

lemma set_scenario_valid: "gd_scenario (fst (set_scenario now name g)) \<in> VALID_SCENARIOS"
  by (simp add: set_scenario_def Let_def VALID_SCENARIOS_def)

lemma set_scenario_cfg: "gd_cfg (fst (set_scenario now name g)) = gd_cfg g"
  by (simp add: set_scenario_def Let_def)

lemma init_valid: "gd_scenario (GameDayController_init cfg now) \<in> VALID_SCENARIOS"
  by (simp add: GameDayController_init_def Let_def VALID_SCENARIOS_def)

lemma gd_apply_valid: "gd_scenario (gd_apply g c) \<in> VALID_SCENARIOS"
  by (cases c) (simp_all add: reset_def set_scenario_valid)

lemma gd_apply_cfg: "gd_cfg (gd_apply g c) = gd_cfg g"
  by (cases c) (simp_all add: reset_def set_scenario_cfg)

lemma gd_run_valid:
  "gd_scenario g \<in> VALID_SCENARIOS \<Longrightarrow> gd_scenario (gd_run calls g) \<in> VALID_SCENARIOS"
  by (induction calls rule: rev_induct) (simp_all add: gd_run_def gd_apply_valid)

lemma gd_run_cfg: "gd_cfg (gd_run calls g) = gd_cfg g"
  by (induction calls rule: rev_induct) (simp_all add: gd_run_def gd_apply_cfg)

subsection \<open>Cooldown\<close>

lemma cooldown_ok_other_key:
  "k' \<noteq> key \<Longrightarrow> last_emit (snd (cooldown_ok now k' th)) key = last_emit th key"
  by (simp add: cooldown_ok_def Let_def)

lemma cooldown_ok_cooldown: "cooldown_s (snd (cooldown_ok now key th)) = cooldown_s th"
  by (simp add: cooldown_ok_def Let_def)

lemma cooldown_ok_True:
  "cooldown_ok now key th = (True, th') \<Longrightarrow>
     th' = th\<lparr>last_emit := (last_emit th)(key \<mapsto> now)\<rparr>"
  by (simp add: cooldown_ok_def Let_def split: if_splits)

lemma thinker_gate_Some:
  assumes "thinker_gate now cam sig th = (Some rule, th')"
  shows "should_trigger sig = (True, rule) \<and>
    th' = th\<lparr>last_emit := (last_emit th)(dedup_key cam rule \<mapsto> now)\<rparr>"
proof -
  obtain b r where st: "should_trigger sig = (b, r)"
    by (cases "should_trigger sig")
  obtain ok th1 where ck: "cooldown_ok now (dedup_key cam r) th = (ok, th1)"
    by (cases "cooldown_ok now (dedup_key cam r) th")
  from assms st ck have v: "b" "ok" "r = rule" "th1 = th'"
    by (auto simp: thinker_gate_def split: if_splits bool.splits)
  with ck have "cooldown_ok now (dedup_key cam rule) th = (True, th')"
    by simp
  then have "th' = th\<lparr>last_emit := (last_emit th)(dedup_key cam rule \<mapsto> now)\<rparr>"
    by (rule cooldown_ok_True)
  with st v show ?thesis by simp
qed


subsection \<open>Thinker\<close>

lemma citations_need_ok: "citations_of tool_res \<noteq> [] \<Longrightarrow> tr_ok tool_res \<and> tr_data tool_res \<noteq> None"
  by (auto simp: citations_of_def split: option.splits if_splits)

lemma thinker_publish_Published:
  assumes "thinker_publish obs rule tool_res cits out = (Published d, au)"
    and "normalize_actions (out_recommended_actions out) = a # rest"
  shows "(if \<not> (tr_ok tool_res \<and> cits \<noteq> []) \<and> a_type a = ''stop_line''
          then d_recommended_actions d =
                 map action_dict (a\<lparr>a_type := ''alert'', a_priority := ''P1'',
                   a_message := grounding_unavailable_message\<rparr> # rest) \<and>
               au = [DegradationAudit rule, DecisionAudit d]
          else d_recommended_actions d = map action_dict (a # rest) \<and> au = [DecisionAudit d])"
  using assms
  by (auto simp: thinker_publish_def Let_def split: if_splits option.splits)

lemma thinker_decide_Reply:
  assumes "thinker_decide obs rule tool_res (Reply (Some out)) = (oc, audit)"
  shows "\<exists>au. thinker_publish obs rule tool_res (citations_of tool_res) out = (oc, au) \<and>
    audit = (if tr_ok tool_res \<and> tr_data tool_res \<noteq> None then [] else [ToolErrorAudit]) @
      [LlmCallAudit True] @ au"
  using assms by (auto simp: thinker_decide_def Let_def split: prod.splits)

lemma grounding_message_phrase:
  "grounding_unavailable_message =
     ''Potential high-risk event detected; '' @ ''policy grounding unavailable'' @
     ([CHR 0xE2, CHR 0x80, CHR 0x94] @ ''alert supervisor to verify before stopping line.'')"
  by (simp add: grounding_unavailable_message_def)


subsection \<open>Thinker: when a decision is published\<close>

lemma thinker_publish_Published_iff:
  "(\<exists>d au. thinker_publish obs rule tool_res cits out = (Published d, au)) =
     (reports_violation out \<and> normalize_actions (out_recommended_actions out) \<noteq> [] \<and>
      out_confidence out \<noteq> None \<and> out_rationale_short out \<noteq> None \<and> out_evidence_ok out)"
  by (auto simp: thinker_publish_def reports_violation_def Let_def
      split: list.splits option.splits if_splits)

lemma thinker_decide_Published_iff:
  "(\<exists>d. fst (thinker_decide obs rule tool_res (Reply (Some out))) = Published d) =
     (reports_violation out \<and> normalize_actions (out_recommended_actions out) \<noteq> [] \<and>
      out_confidence out \<noteq> None \<and> out_rationale_short out \<noteq> None \<and> out_evidence_ok out)"
proof -
  have "(\<exists>d. fst (thinker_decide obs rule tool_res (Reply (Some out))) = Published d) =
      (\<exists>d au. thinker_publish obs rule tool_res (citations_of tool_res) out = (Published d, au))"
    by (auto simp: thinker_decide_def Let_def split: prod.splits)
  then show ?thesis
    by (simp only: thinker_publish_Published_iff)
qed

lemma thinker_decide_Raised: "fst (thinker_decide obs rule tool_res Raised) = Failed"
  by (simp add: thinker_decide_def Let_def)

lemma thinker_decide_unparsed: "fst (thinker_decide obs rule tool_res (Reply None)) = Returned"
  by (simp add: thinker_decide_def thinker_publish_def parse_fail_out_def normalize_actions_def
      List.map_filter_simps dict_get_def Let_def)

lemma handle_observation_passed:
  assumes "thinker_gate now (obs_camera_id obs) (obs_signals obs) th = (Some rule, th')"
  shows "handle_observation now obs tool_res r th =
    (fst (thinker_decide obs rule tool_res r), snd (thinker_decide obs rule tool_res r), th')"
  using assms by (simp add: handle_observation_def split: prod.splits)

lemma handle_observation_suppressed:
  assumes "thinker_gate now (obs_camera_id obs) (obs_signals obs) th = (None, th')"
  shows "handle_observation now obs tool_res r th = (Returned, [], th')"
  using assms by (simp add: handle_observation_def)

subsection \<open>Doer\<close>

lemma enrich_actions_type:
  assumes "d_recommended_actions dec = r0 # rs"
    and "enrich_actions dec r = Some (acts, ok)"
  shows "\<exists>a. acts = [a] \<and>
    da_type a = canonical_action_type (py_str (dict_get r0 ''type'' (PStr [])))"
  using assms
  by (auto simp: enrich_actions_def Let_def base_action_def
      split: reply.splits option.splits list.splits if_splits)

lemma enrich_actions_returns:
  "r \<noteq> Raised \<Longrightarrow> \<exists>a ok. enrich_actions dec r = Some ([a], ok)"
  by (auto simp: enrich_actions_def Let_def split: reply.splits option.splits list.splits)

lemma handle_decision_Acted:
  assumes "handle_decision now dec r disp dr = (Acted ev t, dr')"
  shows "\<exists>acts ok a as. enrich_actions dec r = Some (acts, ok) \<and> take 1 acts = a # as \<and>
    da_type (ae_action ev) = da_type a \<and> t = canonical_action_type (da_type a)"
  using assms
  by (auto simp: handle_decision_def Let_def
      split: option.splits list.splits prod.splits bool.splits if_splits)

lemma handle_decision_acts:
  assumes "enrich_actions dec r = Some ([a], ok)"
  shows "\<exists>ev t dr'. handle_decision now dec r disp dr = (Acted ev t, dr')"
  using assms
  by (auto simp: handle_decision_def Let_def split: prod.splits bool.splits)


subsection \<open>Watchdog\<close>

lemma py_int_mono: "x \<le> y \<Longrightarrow> py_int x \<le> py_int y"
  unfolding py_int_def
  by (auto intro: floor_mono ceiling_mono) (meson ceiling_le_zero le_floor_iff less_eq_real_def
      not_le of_int_0 order_trans zero_le_floor)


lemma tick_entry_other:
  assumes "k \<noteq> key" and "tick_entry now cfg (f, out) (k, i) = (f', out')"
  shows "f' key = f key \<and> breaches_of key out' = breaches_of key out"
  using assms
  by (auto simp: tick_entry_def Let_def breaches_of_def split: option.splits if_splits)

lemma tick_fold_other:
  assumes "key \<notin> fst ` set xs" and "foldl (tick_entry now cfg) (f, out) xs = (f', out')"
  shows "f' key = f key \<and> breaches_of key out' = breaches_of key out"
  using assms
proof (induction xs arbitrary: f out)
  case Nil
  then show ?case by simp
next
  case (Cons x xs)
  obtain k i where x: "x = (k, i)" by (cases x)
  obtain f1 out1 where s: "tick_entry now cfg (f, out) (k, i) = (f1, out1)"
    by (cases "tick_entry now cfg (f, out) (k, i)")
  from Cons.prems x have "k \<noteq> key" and rest: "key \<notin> fst ` set xs"
    by auto
  then have a: "f1 key = f key \<and> breaches_of key out1 = breaches_of key out"
    using s tick_entry_other by blast
  from Cons.prems(2) have "foldl (tick_entry now cfg) (f1, out1) xs = (f', out')"
    by (simp add: x s)
  with Cons.IH rest have "f' key = f1 key \<and> breaches_of key out' = breaches_of key out1"
    by blast
  with a show ?case by simp
qed

lemma tick_entry_self:
  assumes "SLO_BY_STAGE (stage sif) = Some slo_attr"
  shows "tick_entry now cfg (f, out) (key, sif) =
    (if slo_attr cfg \<le> py_int ((now - start_ts sif) * 1000) \<and>
        10 \<le> now - (case f key of Some v \<Rightarrow> v | None \<Rightarrow> 0)
     then (f(key \<mapsto> now), out @ [(key, stage_breach now (slo_attr cfg) sif)])
     else (f, out))"
  using assms by (auto simp: tick_entry_def Let_def)

lemma tick_fold_key:
  assumes "SLO_BY_STAGE (stage sif) = Some slo_attr"
    and "map_of xs key = Some sif" and "distinct (map fst xs)"
    and "foldl (tick_entry now cfg) (f, out) xs = (f', out')"
  shows "(if slo_attr cfg \<le> py_int ((now - start_ts sif) * 1000) \<and>
        10 \<le> now - (case f key of Some v \<Rightarrow> v | None \<Rightarrow> 0)
     then f' key = Some now \<and>
          breaches_of key out' =
            breaches_of key out @ [(key, stage_breach now (slo_attr cfg) sif)]
     else f' key = f key \<and> breaches_of key out' = breaches_of key out)"
  using assms(2-4)
proof (induction xs arbitrary: f out)
  case Nil
  then show ?case by simp
next
  case (Cons x xs)
  obtain k i where x: "x = (k, i)" by (cases x)
  obtain f1 out1 where s: "tick_entry now cfg (f, out) (k, i) = (f1, out1)"
    by (cases "tick_entry now cfg (f, out) (k, i)")
  from Cons.prems(3) have rest: "foldl (tick_entry now cfg) (f1, out1) xs = (f', out')"
    by (simp add: x s)
  show ?case
  proof (cases "k = key")
    case True
    with Cons.prems(1) x have i: "i = sif" by simp
    from Cons.prems(2) x True have "key \<notin> fst ` set xs" by simp
    then have r: "f' key = f1 key \<and> breaches_of key out' = breaches_of key out1"
      using rest tick_fold_other by blast
    from s have "(f1, out1) =
      (if slo_attr cfg \<le> py_int ((now - start_ts sif) * 1000) \<and>
          10 \<le> now - (case f key of Some v \<Rightarrow> v | None \<Rightarrow> 0)
       then (f(key \<mapsto> now), out @ [(key, stage_breach now (slo_attr cfg) sif)])
       else (f, out))"
      using tick_entry_self [OF assms(1), of now cfg f out key] by (simp add: True i)
    with r show ?thesis
      by (auto simp: breaches_of_def split: if_splits)
  next
    case False
    then have a: "f1 key = f key \<and> breaches_of key out1 = breaches_of key out"
      using s tick_entry_other by blast
    from Cons.prems x False have "map_of xs key = Some sif" "distinct (map fst xs)"
      by auto
    from Cons.IH [OF this rest] a show ?thesis by simp
  qed
qed

text \<open>A tick, seen from one key whose entry is in the snapshot.\<close>

lemma tick_key:
  assumes "SLO_BY_STAGE (stage sif) = Some slo_attr"
    and "map_of (inflight st) key = Some sif" and "distinct (map fst (inflight st))"
  shows "wd_cfg (fst (tick now st wd)) = wd_cfg wd \<and>
    (if slo_attr (wd_cfg wd) \<le> py_int ((now - start_ts sif) * 1000) \<and>
        10 \<le> now - (case fired wd key of Some v \<Rightarrow> v | None \<Rightarrow> 0)
     then fired (fst (tick now st wd)) key = Some now \<and>
          breaches_of key (snd (tick now st wd)) =
            [(key, stage_breach now (slo_attr (wd_cfg wd)) sif)]
     else fired (fst (tick now st wd)) key = fired wd key \<and>
          breaches_of key (snd (tick now st wd)) = [])"
proof -
  obtain f' out' where fo: "foldl (tick_entry now (wd_cfg wd)) (fired wd, []) (inflight st) = (f', out')"
    by (cases "foldl (tick_entry now (wd_cfg wd)) (fired wd, []) (inflight st)")
  then have t: "tick now st wd = (wd\<lparr>fired := f'\<rparr>, out')"
    by (simp add: tick_def)
  from tick_fold_key [OF assms fo] show ?thesis
    by (simp add: t breaches_of_def split: if_splits)
qed

text \<open>The debounce of a tick, for any snapshot.\<close>

lemma tick_fold_debounce:
  assumes "foldl (tick_entry now cfg) (f, out) xs = (f', out')"
    and "(f key = f0 key \<and> (\<forall>b. (key, b) \<notin> set out)) \<or>
         (f key = Some now \<and> 10 \<le> now - (case f0 key of Some v \<Rightarrow> v | None \<Rightarrow> 0))"
  shows "(f' key = f0 key \<and> (\<forall>b. (key, b) \<notin> set out')) \<or>
         (f' key = Some now \<and> 10 \<le> now - (case f0 key of Some v \<Rightarrow> v | None \<Rightarrow> 0))"
  using assms
proof (induction xs arbitrary: f out)
  case Nil
  then show ?case by simp
next
  case (Cons x xs)
  obtain k i where x: "x = (k, i)" by (cases x)
  obtain f1 out1 where s: "tick_entry now cfg (f, out) (k, i) = (f1, out1)"
    by (cases "tick_entry now cfg (f, out) (k, i)")
  from Cons.prems(1) have rest: "foldl (tick_entry now cfg) (f1, out1) xs = (f', out')"
    by (simp add: x s)
  have "(f1 key = f0 key \<and> (\<forall>b. (key, b) \<notin> set out1)) \<or>
         (f1 key = Some now \<and> 10 \<le> now - (case f0 key of Some v \<Rightarrow> v | None \<Rightarrow> 0))"
    using s Cons.prems(2)
    by (auto simp: tick_entry_def Let_def split: option.splits if_splits)
  with Cons.IH [OF rest] show ?case by blast
qed

lemma tick_debounce:
  assumes "(key, b) \<in> set (snd (tick now st wd))"
  shows "10 \<le> now - (case fired wd key of Some v \<Rightarrow> v | None \<Rightarrow> 0) \<and>
    fired (fst (tick now st wd)) key = Some now"
proof -
  obtain f' out' where fo: "foldl (tick_entry now (wd_cfg wd)) (fired wd, []) (inflight st) = (f', out')"
    by (cases "foldl (tick_entry now (wd_cfg wd)) (fired wd, []) (inflight st)")
  then have t: "tick now st wd = (wd\<lparr>fired := f'\<rparr>, out')"
    by (simp add: tick_def)
  have "(f' key = fired wd key \<and> (\<forall>b. (key, b) \<notin> set out')) \<or>
      (f' key = Some now \<and> 10 \<le> now - (case fired wd key of Some v \<Rightarrow> v | None \<Rightarrow> 0))"
    by (rule tick_fold_debounce [OF fo]) simp
  moreover from assms t have "(key, b) \<in> set out'"
    by simp
  ultimately show ?thesis
    by (auto simp: t)
qed


lemma window_index:
  fixes j :: nat
  assumes "1 \<le> j"
  shows "(40 + 40 * ((j - 1) div 40) \<le> j) = (j mod 40 = 0)"
proof -
  from assms obtain i where j: "j = Suc i"
    by (cases j) simp_all
  define q where "q = i div 40"
  define r where "r = i mod 40"
  have i: "i = 40 * q + r" and r: "r < 40"
    by (simp_all add: q_def r_def)
  have m: "Suc i mod 40 = (if Suc r = 40 then 0 else Suc r)"
    unfolding r_def by (rule mod_Suc)
  have "(40 + 40 * q \<le> Suc i) = (Suc r = 40)"
    using i r by linarith
  also have "\<dots> = (Suc i mod 40 = 0)"
    by (simp add: m)
  finally show ?thesis
    by (simp add: j q_def)
qed

lemma debounce_index:
  assumes "1 \<le> j"
  shows "(10 \<le> (t0 + real j / 4) - (t0 + 10 * real ((j - 1) div 40))) = (j mod 40 = 0)"
proof -
  have "(10 \<le> (t0 + real j / 4) - (t0 + 10 * real ((j - 1) div 40))) =
      (real (40 + 40 * ((j - 1) div 40)) \<le> real j)"
    by (simp add: field_simps)
  also have "\<dots> = (40 + 40 * ((j - 1) div 40) \<le> j)"
    by (rule of_nat_le_iff)
  also have "\<dots> = (j mod 40 = 0)"
    using assms by (rule window_index)
  finally show ?thesis .
qed

lemma fired_index:
  assumes "j mod 40 = 0"
  shows "t0 + real j / 4 = t0 + 10 * real (j div 40)"
proof -
  have "40 * (j div 40) + j mod 40 = j"
    by (rule mult_div_mod_eq)
  with assms have "j = 40 * (j div 40)" by simp
  then have "real j = real (40 * (j div 40))"
    by simp
  then have "real j = 40 * real (j div 40)"
    by (simp only: of_nat_mult of_nat_numeral)
  then show ?thesis by simp
qed

lemma unfired_index:
  fixes j :: nat
  assumes "1 \<le> j" and "j mod 40 \<noteq> 0"
  shows "(j - 1) div 40 = j div (40::nat)"
proof -
  from assms(1) obtain i where j: "j = Suc i"
    by (cases j) simp_all
  with assms(2) have "Suc i div 40 = i div 40"
    by (simp add: div_Suc)
  then show ?thesis by (simp add: j)
qed

lemma upt_shift: "[j..<j + Suc n] = j # [Suc j..<Suc j + n]"
  by (subst upt_rec) simp

lemma schedule_Suc:
  "schedule t0 sts j (Suc n) = (t0 + real j / 4, sts j) # schedule t0 sts (Suc j) n"
  unfolding schedule_def upt_shift by (simp only: list.map)

lemma polls_window:
  assumes slo: "SLO_BY_STAGE (stage sif) = Some slo_attr"
    and snaps: "\<forall>k. j \<le> k \<and> k < j + n \<longrightarrow>
      map_of (inflight (sts k)) key = Some sif \<and> distinct (map fst (inflight (sts k)))"
    and over: "slo_attr (wd_cfg wd) \<le> py_int ((t0 - start_ts sif) * 1000)"
    and j: "1 \<le> j"
    and last: "fired wd key = Some (t0 + 10 * real ((j - 1) div 40))"
  shows "map (breaches_of key) (snd (polls (schedule t0 sts j n) wd)) =
    map (\<lambda>k. if k mod 40 = 0
             then [(key, stage_breach (t0 + real k / 4) (slo_attr (wd_cfg wd)) sif)]
             else []) [j..<j + n]"
  using snaps over j last
proof (induction n arbitrary: j wd)
  case 0
  show ?case by (simp add: schedule_def)
next
  case (Suc n)
  let ?now = "t0 + real j / 4"
  obtain wd1 out where t: "tick ?now (sts j) wd = (wd1, out)"
    by (cases "tick ?now (sts j) wd")
  obtain wd2 outs where p: "polls (schedule t0 sts (Suc j) n) wd1 = (wd2, outs)"
    by (cases "polls (schedule t0 sts (Suc j) n) wd1")
  from Suc.prems(1) have here: "map_of (inflight (sts j)) key = Some sif"
    "distinct (map fst (inflight (sts j)))"
    by simp_all
  have "(t0 - start_ts sif) * 1000 \<le> (?now - start_ts sif) * 1000"
    by simp
  then have el: "slo_attr (wd_cfg wd) \<le> py_int ((?now - start_ts sif) * 1000)"
    using Suc.prems(2) py_int_mono order_trans by blast
  have fire: "(10 \<le> ?now - (case fired wd key of Some v \<Rightarrow> v | None \<Rightarrow> 0)) = (j mod 40 = 0)"
    using debounce_index [OF Suc.prems(3), of t0] by (simp add: Suc.prems(4))
  note k = tick_key [OF slo here, of ?now wd]
  have cfg1: "wd_cfg wd1 = wd_cfg wd"
    using k by (simp add: t)
  have out: "breaches_of key out =
      (if j mod 40 = 0 then [(key, stage_breach ?now (slo_attr (wd_cfg wd)) sif)] else [])"
    using k el fire by (simp add: t split: if_splits)
  have f1: "fired wd1 key = Some (t0 + 10 * real (j div 40))"
  proof (cases "j mod 40 = 0")
    case True
    with k el fire have "fired wd1 key = Some ?now"
      by (simp add: t)
    with True show ?thesis
      by (simp only: fired_index)
  next
    case False
    with k el fire have "fired wd1 key = fired wd key"
      by (simp add: t)
    moreover have "(j - 1) div 40 = j div 40"
      using Suc.prems(3) False by (rule unfired_index)
    ultimately show ?thesis
      by (simp only: Suc.prems(4))
  qed
  have "map (breaches_of key) (snd (polls (schedule t0 sts (Suc j) n) wd1)) =
    map (\<lambda>k. if k mod 40 = 0
             then [(key, stage_breach (t0 + real k / 4) (slo_attr (wd_cfg wd1)) sif)]
             else []) [Suc j..<Suc j + n]"
  proof (rule Suc.IH)
    show "\<forall>k. Suc j \<le> k \<and> k < Suc j + n \<longrightarrow>
        map_of (inflight (sts k)) key = Some sif \<and> distinct (map fst (inflight (sts k)))"
      using Suc.prems(1) by simp
    show "slo_attr (wd_cfg wd1) \<le> py_int ((t0 - start_ts sif) * 1000)"
      using Suc.prems(2) by (simp add: cfg1)
    show "1 \<le> Suc j" by simp
    show "fired wd1 key = Some (t0 + 10 * real ((Suc j - 1) div 40))"
      using f1 by simp
  qed
  then have rest: "map (breaches_of key) outs =
    map (\<lambda>k. if k mod 40 = 0
             then [(key, stage_breach (t0 + real k / 4) (slo_attr (wd_cfg wd)) sif)]
             else []) [Suc j..<Suc j + n]"
    by (simp add: p cfg1)
  show ?case
    by (simp only: upt_shift schedule_Suc polls.simps t p prod.case snd_conv list.map out rest)
qed

lemma concat_map_if:
  "concat (map (\<lambda>k. if P k then [g k] else []) xs) = map g (filter P xs)"
  by (induction xs) simp_all

lemma firing_polls: "filter (\<lambda>k. k mod 40 = 0) [0..<120] = [0, 40, 80::nat]"
  by code_simp

lemma polls_from_start:
  assumes slo: "SLO_BY_STAGE (stage sif) = Some slo_attr"
    and snaps: "\<forall>k < Suc n. map_of (inflight (sts k)) key = Some sif \<and>
      distinct (map fst (inflight (sts k)))"
    and over: "slo_attr (wd_cfg wd) \<le> py_int ((t0 - start_ts sif) * 1000)"
    and quiet: "10 \<le> t0 - (case fired wd key of Some v \<Rightarrow> v | None \<Rightarrow> 0)"
  shows "map (breaches_of key) (snd (polls (schedule t0 sts 0 (Suc n)) wd)) =
    map (\<lambda>k. if k mod 40 = 0
             then [(key, stage_breach (t0 + real k / 4) (slo_attr (wd_cfg wd)) sif)]
             else []) [0..<Suc n]"
proof -
  obtain wd1 out where t: "tick t0 (sts 0) wd = (wd1, out)"
    by (cases "tick t0 (sts 0) wd")
  obtain wd2 outs where p: "polls (schedule t0 sts (Suc 0) n) wd1 = (wd2, outs)"
    by (cases "polls (schedule t0 sts (Suc 0) n) wd1")
  from snaps have here: "map_of (inflight (sts 0)) key = Some sif"
    "distinct (map fst (inflight (sts 0)))"
    by simp_all
  note k = tick_key [OF slo here, of t0 wd]
  have cfg1: "wd_cfg wd1 = wd_cfg wd"
    using k by (simp add: t)
  have out: "breaches_of key out = [(key, stage_breach t0 (slo_attr (wd_cfg wd)) sif)]"
    using k over quiet by (simp add: t)
  have f1: "fired wd1 key = Some t0"
    using k over quiet by (simp add: t)
  have "map (breaches_of key) (snd (polls (schedule t0 sts (Suc 0) n) wd1)) =
    map (\<lambda>k. if k mod 40 = 0
             then [(key, stage_breach (t0 + real k / 4) (slo_attr (wd_cfg wd1)) sif)]
             else []) [Suc 0..<Suc 0 + n]"
  proof (rule polls_window [OF slo])
    show "\<forall>k. Suc 0 \<le> k \<and> k < Suc 0 + n \<longrightarrow>
        map_of (inflight (sts k)) key = Some sif \<and> distinct (map fst (inflight (sts k)))"
      using snaps by simp
    show "slo_attr (wd_cfg wd1) \<le> py_int ((t0 - start_ts sif) * 1000)"
      using over by (simp add: cfg1)
    show "1 \<le> Suc 0" by simp
    show "fired wd1 key = Some (t0 + 10 * real ((Suc 0 - 1) div 40))"
      using f1 by simp
  qed
  then have rest: "map (breaches_of key) outs =
    map (\<lambda>k. if k mod 40 = 0
             then [(key, stage_breach (t0 + real k / 4) (slo_attr (wd_cfg wd)) sif)]
             else []) [Suc 0..<Suc n]"
    by (simp add: p cfg1)
  have s: "schedule t0 sts 0 (Suc n) = (t0, sts 0) # schedule t0 sts (Suc 0) n"
    using schedule_Suc [of t0 sts 0 n] by simp
  have u: "[0..<Suc n] = 0 # [Suc 0..<Suc n]"
    by (subst upt_rec) simp
  show ?thesis
    unfolding s u
    by (simp only: polls.simps t p prod.case snd_conv list.map out rest) simp
qed


section \<open>Claims\<close>





text \<open>
  C2 (as stated): only the first \<open>mark\<close> call for a trace and milestone records a timestamp,
  later calls are no-ops. \<open>RuntimeState.mark\<close> assigns the field without testing it: a second
  call at time 2 replaces the value 1 recorded by the first.
\<close>

theorem C2_mark_overwrites_counterexample:
  "dec_ts (trace_ts (mark 1 ''t1'' ''decision'' RuntimeState_init) ''t1'') = Some 1 \<and>
   dec_ts (trace_ts (mark 2 ''t1'' ''decision'' (mark 1 ''t1'' ''decision'' RuntimeState_init)) ''t1'')
     = Some 2"
  by (simp add: mark_def trace_ts_def RuntimeState_init_def TraceTimestamps_init_def Let_def)

text \<open>
  C2 (amended): every \<open>mark\<close> call for one of the four milestones sets that milestone's field
  of the trace to the clock value of the call, whether or not a value was recorded before; the
  other three fields of the trace and the entries of all other traces are unchanged. After any
  sequence of \<open>mark\<close> calls a field therefore holds the clock value of the latest call for that
  trace and milestone, and its initial value when there was none.
\<close>

theorem C2_mark_latest:
  "kind \<in> set milestones \<longrightarrow>
     milestone_ts kind (trace_ts (mark now tr kind st) tr) = Some now \<and>
     (\<forall>k. k \<noteq> kind \<longrightarrow>
        milestone_ts k (trace_ts (mark now tr kind st) tr) = milestone_ts k (trace_ts st tr)) \<and>
     (\<forall>tr'. tr' \<noteq> tr \<longrightarrow> ts (mark now tr kind st) tr' = ts st tr') \<and>
     milestone_ts kind (trace_ts (marks calls st) tr) =
       (case last_mark tr kind calls of
          Some t \<Rightarrow> Some t
        | None \<Rightarrow> milestone_ts kind (trace_ts st tr))"
  using mark_same mark_other_kind mark_other_trace marks_latest by blast

theorem C2_mark_latest_witness:
  "milestone_ts ''decision''
     (trace_ts (marks [(1, ''t1'', ''clip''), (2, ''t1'', ''decision''), (5, ''t1'', ''decision'')]
        RuntimeState_init) ''t1'') = Some 5"
proof -
  have m: "''decision'' \<in> set milestones"
    by (simp add: milestones_def)
  have l: "last_mark ''t1'' ''decision''
      [(1, ''t1'', ''clip''), (2, ''t1'', ''decision''), (5::real, ''t1'', ''decision'')] = Some 5"
    by (simp add: last_mark_def)
  show ?thesis
    using C2_mark_latest [of "''decision''" 0 "''t1''" RuntimeState_init
        "[(1, ''t1'', ''clip''), (2, ''t1'', ''decision''), (5, ''t1'', ''decision'')]"] m
    by (simp add: l)
qed


text \<open>
  C9 (as stated): the latency returned by \<open>e2e_decision_latency_ms\<close> is always at least 0.
  The function returns the plain difference: when the decision mark carries the smaller clock
  value (here the decision is marked at time 1 and the clip at time 2) the result is negative.
\<close>

theorem C9_negative_latency_counterexample:
  "e2e_decision_latency_ms ''t1''
     (mark 2 ''t1'' ''clip'' (mark 1 ''t1'' ''decision'' RuntimeState_init)) = Some (- 1000)"
  by (simp add: e2e_decision_latency_ms_def mark_def RuntimeState_init_def
      TraceTimestamps_init_def Let_def py_int_def)

text \<open>
  C9 (amended): \<open>e2e_decision_latency_ms\<close> returns a value exactly when the trace has both a
  clip-mark and a decision-mark timestamp, and \<open>None\<close> when the trace is unknown or either is
  missing. The value is the difference decision minus clip in milliseconds, truncated toward
  zero to an integer (so within 1 ms of the exact difference). It is at least 0 whenever the
  decision timestamp is not earlier than the clip timestamp; in general it is at least 0
  exactly when the clip timestamp exceeds the decision timestamp by less than one millisecond.
\<close>

theorem C9_e2e_decision_latency:
  "(e2e_decision_latency_ms tr st \<noteq> None) =
     (\<exists>t c d. ts st tr = Some t \<and> clip_ts t = Some c \<and> dec_ts t = Some d) \<and>
   (\<forall>t c d. ts st tr = Some t \<and> clip_ts t = Some c \<and> dec_ts t = Some d \<longrightarrow>
      e2e_decision_latency_ms tr st = Some (py_int ((d - c) * 1000)) \<and>
      \<bar>real_of_int (py_int ((d - c) * 1000)) - (d - c) * 1000\<bar> < 1 \<and>
      (c \<le> d \<longrightarrow> 0 \<le> py_int ((d - c) * 1000)) \<and>
      (0 \<le> py_int ((d - c) * 1000)) = ((c - d) * 1000 < 1))"
proof -
  have a: "(e2e_decision_latency_ms tr st \<noteq> None) =
     (\<exists>t c d. ts st tr = Some t \<and> clip_ts t = Some c \<and> dec_ts t = Some d)"
    by (auto simp: e2e_decision_latency_ms_def split: option.splits)
  have b: "e2e_decision_latency_ms tr st = Some (py_int ((d - c) * 1000))"
    if "ts st tr = Some t" "clip_ts t = Some c" "dec_ts t = Some d" for t c d
    using that by (simp add: e2e_decision_latency_ms_def)
  have c: "c \<le> d \<Longrightarrow> 0 \<le> py_int ((d - c) * 1000)" for c d :: real
    by (rule py_int_mono_nonneg) simp
  have d: "(0 \<le> py_int ((d - c) * 1000)) = ((c - d) * 1000 < 1)" for c d :: real
    unfolding py_int_nonneg_iff by (auto simp: algebra_simps)
  show ?thesis
    using a b c d py_int_close by blast
qed

theorem C9_e2e_decision_latency_witness:
  "e2e_decision_latency_ms ''t1''
     (mark (7 / 2) ''t1'' ''decision'' (mark 1 ''t1'' ''clip'' RuntimeState_init)) = Some 2500 \<and>
   e2e_decision_latency_ms ''t1'' (mark 1 ''t1'' ''clip'' RuntimeState_init) = None"
proof -
  define st where "st = mark (7 / 2) ''t1'' ''decision'' (mark 1 ''t1'' ''clip'' RuntimeState_init)"
  define t where "t = \<lparr>clip_ts = Some (1::real), obs_ts = None, dec_ts = Some (7 / 2), act_ts = None\<rparr>"
  have s: "ts st ''t1'' = Some t"
    by (simp add: st_def t_def mark_def RuntimeState_init_def TraceTimestamps_init_def Let_def)
  have "e2e_decision_latency_ms ''t1'' st = Some (py_int ((7 / 2 - 1) * 1000))"
    using C9_e2e_decision_latency [of "''t1''" st, THEN conjunct2, rule_format, of t 1 "7 / 2"] s
    by (simp add: t_def)
  moreover have "py_int ((7 / 2 - 1) * 1000) = 2500"
    by (simp add: py_int_def)
  moreover have "e2e_decision_latency_ms ''t1'' (mark 1 ''t1'' ''clip'' RuntimeState_init) = None"
    using C9_e2e_decision_latency [of "''t1''" "mark 1 ''t1'' ''clip'' RuntimeState_init"]
    by (simp add: mark_def RuntimeState_init_def TraceTimestamps_init_def Let_def)
  ultimately show ?thesis
    by (simp add: st_def)
qed


text \<open>
  C5: a buffer constructed with capacity \<open>C\<close> (the constructor accepts every \<open>C \<ge> 0\<close>) holds
  at most \<open>C\<close> records after every prefix of a sequence of \<open>add\<close> calls; its contents are the
  last \<open>C\<close> inserted records in insertion order, the oldest having been evicted first; and
  after more than \<open>C\<close> calls \<open>recent(C)\<close> returns exactly the last \<open>C\<close> inserted records,
  newest first.
\<close>

theorem C5_audit_buffer_capacity:
  "(AuditBuffer_init C \<noteq> (None :: 'p AuditBuffer option)) = (0 \<le> C) \<and>
   (AuditBuffer_init C = Some (buf :: 'p AuditBuffer) \<longrightarrow>
      (\<forall>n. length (events (adds (take n calls) buf)) \<le> nat C) \<and>
      events (adds calls buf) = drop (length calls - nat C) (map inserted calls) \<and>
      (nat C < length calls \<longrightarrow>
         recent C (adds calls buf) = take (nat C) (rev (map inserted calls))))"
proof -
  have a: "(AuditBuffer_init C \<noteq> (None :: 'p AuditBuffer option)) = (0 \<le> C)"
    by (simp add: AuditBuffer_init_def)
  have b: "(\<forall>n. length (events (adds (take n calls) buf)) \<le> nat C) \<and>
      events (adds calls buf) = drop (length calls - nat C) (map inserted calls) \<and>
      (nat C < length calls \<longrightarrow>
         recent C (adds calls buf) = take (nat C) (rev (map inserted calls)))"
    if init: "AuditBuffer_init C = Some buf"
  proof -
    from init have c: "0 \<le> C" and m: "maxlen buf = nat C" and e: "events buf = []"
      by (auto simp: AuditBuffer_init_def split: if_splits)
    have le: "length (events buf) \<le> maxlen buf"
      by (simp add: e)
    have p: "length (events (adds (take n calls) buf)) \<le> nat C" for n
      using adds_length [OF le, of "take n calls"] by (simp add: m)
    have q: "events (adds calls buf) = drop (length calls - nat C) (map inserted calls)"
      using adds_events [OF le, of calls] by (simp add: m e)
    have r: "recent C (adds calls buf) = take (nat C) (rev (map inserted calls))"
      if "nat C < length calls"
      using recent_full [OF le, of calls] that c by (simp add: m)
    from p q r show ?thesis by blast
  qed
  from a b show ?thesis by blast
qed

theorem C5_audit_buffer_capacity_witness:
  "recent 2
     (adds [(''a'', ''t1'', ''clip'', ''x'', ()), (''b'', ''t2'', ''stage'', ''x'', ()),
            (''c'', ''t3'', ''action'', ''x'', ())]
        \<lparr>maxlen = 2, events = []\<rparr>) =
   [\<lparr>audit_id = ''c'', ev_ts = ''t3'', ev_kind = ''action'', ev_trace_id = ''x'', ev_payload = ()\<rparr>,
    \<lparr>audit_id = ''b'', ev_ts = ''t2'', ev_kind = ''stage'', ev_trace_id = ''x'', ev_payload = ()\<rparr>]"
proof -
  have i: "AuditBuffer_init 2 = Some \<lparr>maxlen = 2, events = ([] :: unit AuditEvent list)\<rparr>"
    by (simp add: AuditBuffer_init_def)
  show ?thesis
    using C5_audit_buffer_capacity [of 2 "\<lparr>maxlen = 2, events = []\<rparr>"
        "[(''a'', ''t1'', ''clip'', ''x'', ()), (''b'', ''t2'', ''stage'', ''x'', ()),
          (''c'', ''t3'', ''action'', ''x'', ())]"] i
    by (simp add: inserted_def)
qed

text \<open>
  C4 (as stated): for every buffer contents, sent + failed + skipped equals the number of
  action records. \<open>kpi\<close> counts a record under one of the three only when its status text is
  \<open>sent\<close>, \<open>failed\<close> or \<open>skipped\<close>; \<open>add\<close> accepts any payload, and an action record with
  another status (here \<open>pending\<close>) is counted in \<open>actions\<close> and in none of the three.
\<close>

theorem C4_unknown_status_counterexample:
  "kpi_actions (kpi (adds
      [(''id1'', ''2026-01-01T00:00:00+00:00'', ''action'', ''t1'',
        \<lparr>pl_action = Some [''type'' \<mapsto> PStr ''alert''], pl_status = Some (PStr ''pending'')\<rparr>)]
      \<lparr>maxlen = 4000, events = []\<rparr>)) = 1 \<and>
   kpi_action_sent (kpi (adds
      [(''id1'', ''2026-01-01T00:00:00+00:00'', ''action'', ''t1'',
        \<lparr>pl_action = Some [''type'' \<mapsto> PStr ''alert''], pl_status = Some (PStr ''pending'')\<rparr>)]
      \<lparr>maxlen = 4000, events = []\<rparr>)) +
   kpi_action_failed (kpi (adds
      [(''id1'', ''2026-01-01T00:00:00+00:00'', ''action'', ''t1'',
        \<lparr>pl_action = Some [''type'' \<mapsto> PStr ''alert''], pl_status = Some (PStr ''pending'')\<rparr>)]
      \<lparr>maxlen = 4000, events = []\<rparr>)) +
   kpi_action_skipped (kpi (adds
      [(''id1'', ''2026-01-01T00:00:00+00:00'', ''action'', ''t1'',
        \<lparr>pl_action = Some [''type'' \<mapsto> PStr ''alert''], pl_status = Some (PStr ''pending'')\<rparr>)]
      \<lparr>maxlen = 4000, events = []\<rparr>)) = 0"
proof -
  have l: "lower ''pending'' = ''pending''"
    by (simp add: string_defs)
  show ?thesis
    by (simp add: kpi_outcomes kpi_actions_count adds_def add_def deque_append_def Let_def
        counted_status_def status_text_def l)
qed

text \<open>
  C4 (amended): for every buffer contents, sent + failed + skipped is the number of action
  records of the snapshot whose status text (the \<open>str()\<close> of the payload's \<open>status\<close>,
  lowercased) is \<open>sent\<close>, \<open>failed\<close> or \<open>skipped\<close>. It is at most \<open>actions\<close>, and equal to
  \<open>actions\<close> exactly when every action record of the snapshot has one of the three statuses.
\<close>

theorem C4_kpi_outcomes:
  "kpi_action_sent (kpi buf) + kpi_action_failed (kpi buf) + kpi_action_skipped (kpi buf) =
     length (filter counted_status (filter (\<lambda>x. ev_kind x = ''action'') (events buf))) \<and>
   kpi_actions (kpi buf) = length (filter (\<lambda>x. ev_kind x = ''action'') (events buf)) \<and>
   kpi_action_sent (kpi buf) + kpi_action_failed (kpi buf) + kpi_action_skipped (kpi buf)
     \<le> kpi_actions (kpi buf) \<and>
   (kpi_action_sent (kpi buf) + kpi_action_failed (kpi buf) + kpi_action_skipped (kpi buf) =
      kpi_actions (kpi buf)) =
     (\<forall>a \<in> set (events buf). ev_kind a = ''action'' \<longrightarrow> counted_status a)"
proof -
  let ?acts = "filter (\<lambda>x. ev_kind x = ''action'') (events buf)"
  have "(length (filter counted_status ?acts) = length ?acts) =
      (\<forall>a \<in> set ?acts. counted_status a)"
    by (rule filter_length_eq_iff)
  moreover have "(\<forall>a \<in> set ?acts. counted_status a) =
      (\<forall>a \<in> set (events buf). ev_kind a = ''action'' \<longrightarrow> counted_status a)"
    by auto
  moreover have "length (filter counted_status ?acts) \<le> length ?acts"
    by (rule length_filter_le)
  ultimately show ?thesis
    by (simp only: kpi_outcomes kpi_actions_count)
qed

theorem C4_kpi_outcomes_witness:
  "kpi_action_sent (kpi \<lparr>maxlen = 4000, events =
      [\<lparr>audit_id = ''1'', ev_ts = ''t1'', ev_kind = ''action'', ev_trace_id = ''x'',
         ev_payload = \<lparr>pl_action = None, pl_status = Some (PStr ''sent'')\<rparr>\<rparr>,
       \<lparr>audit_id = ''2'', ev_ts = ''t2'', ev_kind = ''decision'', ev_trace_id = ''x'',
         ev_payload = \<lparr>pl_action = None, pl_status = None\<rparr>\<rparr>,
       \<lparr>audit_id = ''3'', ev_ts = ''t3'', ev_kind = ''action'', ev_trace_id = ''y'',
         ev_payload = \<lparr>pl_action = None, pl_status = Some (PStr ''Skipped'')\<rparr>\<rparr>]\<rparr>) +
   kpi_action_failed (kpi \<lparr>maxlen = 4000, events =
      [\<lparr>audit_id = ''1'', ev_ts = ''t1'', ev_kind = ''action'', ev_trace_id = ''x'',
         ev_payload = \<lparr>pl_action = None, pl_status = Some (PStr ''sent'')\<rparr>\<rparr>,
       \<lparr>audit_id = ''2'', ev_ts = ''t2'', ev_kind = ''decision'', ev_trace_id = ''x'',
         ev_payload = \<lparr>pl_action = None, pl_status = None\<rparr>\<rparr>,
       \<lparr>audit_id = ''3'', ev_ts = ''t3'', ev_kind = ''action'', ev_trace_id = ''y'',
         ev_payload = \<lparr>pl_action = None, pl_status = Some (PStr ''Skipped'')\<rparr>\<rparr>]\<rparr>) +
   kpi_action_skipped (kpi \<lparr>maxlen = 4000, events =
      [\<lparr>audit_id = ''1'', ev_ts = ''t1'', ev_kind = ''action'', ev_trace_id = ''x'',
         ev_payload = \<lparr>pl_action = None, pl_status = Some (PStr ''sent'')\<rparr>\<rparr>,
       \<lparr>audit_id = ''2'', ev_ts = ''t2'', ev_kind = ''decision'', ev_trace_id = ''x'',
         ev_payload = \<lparr>pl_action = None, pl_status = None\<rparr>\<rparr>,
       \<lparr>audit_id = ''3'', ev_ts = ''t3'', ev_kind = ''action'', ev_trace_id = ''y'',
         ev_payload = \<lparr>pl_action = None, pl_status = Some (PStr ''Skipped'')\<rparr>\<rparr>]\<rparr>) = 2"
proof -
  have l: "lower ''sent'' = ''sent''" "lower ''Skipped'' = ''skipped''"
    by (simp_all add: string_defs)
  show ?thesis
    using C4_kpi_outcomes [of "\<lparr>maxlen = 4000, events =
      [\<lparr>audit_id = ''1'', ev_ts = ''t1'', ev_kind = ''action'', ev_trace_id = ''x'',
         ev_payload = \<lparr>pl_action = None, pl_status = Some (PStr ''sent'')\<rparr>\<rparr>,
       \<lparr>audit_id = ''2'', ev_ts = ''t2'', ev_kind = ''decision'', ev_trace_id = ''x'',
         ev_payload = \<lparr>pl_action = None, pl_status = None\<rparr>\<rparr>,
       \<lparr>audit_id = ''3'', ev_ts = ''t3'', ev_kind = ''action'', ev_trace_id = ''y'',
         ev_payload = \<lparr>pl_action = None, pl_status = Some (PStr ''Skipped'')\<rparr>\<rparr>]\<rparr>"]
    by (simp add: counted_status_def status_text_def l)
qed


text \<open>
  C8: \<open>set_scenario\<close> with a name outside \<open>VALID_SCENARIOS\<close> leaves the active scenario
  \<open>none\<close>; the stored scenario, and the one \<open>status\<close> reports, is a member of
  \<open>VALID_SCENARIOS\<close> at construction (where a disabled controller or an invalid default gives
  \<open>none\<close>) and after every sequence of \<open>set_scenario\<close> and \<open>reset\<close> calls; and \<open>active(x)\<close> is
  false for every \<open>x\<close> whenever the controller is disabled, whatever scenario is stored.
\<close>

theorem C8_scenario_controller:
  "(name \<notin> VALID_SCENARIOS \<longrightarrow>
      gd_scenario (fst (set_scenario now name g)) = ''none'' \<and>
      st_scenario (status (fst (set_scenario now name g))) = ''none'') \<and>
   (\<not> gameday_enabled cfg \<or> gameday_scenario cfg \<notin> VALID_SCENARIOS \<longrightarrow>
      gd_scenario (GameDayController_init cfg now0) = ''none'') \<and>
   gd_scenario (gd_run calls (GameDayController_init cfg now0)) \<in> VALID_SCENARIOS \<and>
   st_scenario (status (gd_run calls (GameDayController_init cfg now0))) \<in> VALID_SCENARIOS \<and>
   (\<not> gameday_enabled (gd_cfg g) \<longrightarrow> \<not> active x g) \<and>
   (\<not> gameday_enabled cfg \<longrightarrow> \<not> active x (gd_run calls (GameDayController_init cfg now0)))"
proof -
  have a: "name \<notin> VALID_SCENARIOS \<Longrightarrow> gd_scenario (fst (set_scenario now name g)) = ''none''"
    by (simp add: set_scenario_def Let_def)
  have b: "\<not> gameday_enabled cfg \<or> gameday_scenario cfg \<notin> VALID_SCENARIOS \<Longrightarrow>
      gd_scenario (GameDayController_init cfg now0) = ''none''"
    by (auto simp: GameDayController_init_def Let_def)
  have c: "gd_scenario (gd_run calls (GameDayController_init cfg now0)) \<in> VALID_SCENARIOS"
    by (rule gd_run_valid) (rule init_valid)
  have d: "gd_cfg (gd_run calls (GameDayController_init cfg now0)) = cfg"
    by (simp add: gd_run_cfg GameDayController_init_def Let_def)
  have e: "\<not> gameday_enabled (gd_cfg g') \<Longrightarrow> \<not> active x g'" for g'
    by (simp add: active_def)
  from a b c d e show ?thesis
    by (simp add: status_def)
qed

theorem C8_scenario_controller_witness:
  "gd_scenario (fst (set_scenario 20 ''not_a_real_scenario''
      (GameDayController_init
        \<lparr>gameday_enabled = False, gameday_scenario = ''injection'', gameday_force = True,
         slo_observer_ms = 2500, slo_thinker_ms = 2000, slo_doer_ms = 1500,
         slo_dispatcher_ms = 1200, slo_pipeline_e2e_ms = 5000\<rparr> 10))) = ''none'' \<and>
   gd_scenario (GameDayController_init
        \<lparr>gameday_enabled = False, gameday_scenario = ''injection'', gameday_force = True,
         slo_observer_ms = 2500, slo_thinker_ms = 2000, slo_doer_ms = 1500,
         slo_dispatcher_ms = 1200, slo_pipeline_e2e_ms = 5000\<rparr> 10) = ''none'' \<and>
   \<not> active ''injection'' (gd_run [SetScenario 20 ''injection'']
      (GameDayController_init
        \<lparr>gameday_enabled = False, gameday_scenario = ''injection'', gameday_force = True,
         slo_observer_ms = 2500, slo_thinker_ms = 2000, slo_doer_ms = 1500,
         slo_dispatcher_ms = 1200, slo_pipeline_e2e_ms = 5000\<rparr> 10))"
proof -
  define cfg where "cfg =
    \<lparr>gameday_enabled = False, gameday_scenario = ''injection'', gameday_force = True,
     slo_observer_ms = 2500, slo_thinker_ms = 2000, slo_doer_ms = 1500,
     slo_dispatcher_ms = 1200, slo_pipeline_e2e_ms = 5000\<rparr>"
  have n: "''not_a_real_scenario'' \<notin> VALID_SCENARIOS"
    by (simp add: VALID_SCENARIOS_def)
  have d: "\<not> gameday_enabled cfg"
    by (simp add: cfg_def)
  show ?thesis
    using C8_scenario_controller [of "''not_a_real_scenario''" 20 "GameDayController_init cfg 10"
        cfg 10 "[SetScenario 20 ''injection'']" "''injection''"] n d
    unfolding cfg_def [symmetric] by blast
qed

text \<open>
  C7 (as stated): of two triggering observations for one dedup key within the cooldown window,
  the first is forwarded as a decision. \<open>handle_observation\<close> records the cooldown time stamp
  at the cooldown test, before the lookup and the model call; when the model output of the
  first observation cannot be decoded (or reports no violation, or the call raises) nothing
  is published for it, and the second observation, two seconds later, is suppressed all the
  same: no decision is forwarded for either.
\<close>

theorem C7_unforwarded_first_counterexample:
  "fst (thinker_gate 100 ''cam1''
      [''machine_operating'' \<mapsto> PStr ''yes'', ''panel_open'' \<mapsto> PStr ''yes''] ThinkerAgent_init)
     = Some ''panel_open_while_operating'' \<and>
   fst (handle_observation 100
      \<lparr>obs_trace_id = ''t1'', obs_camera_id = ''cam1'', obs_clip_index = 7,
       obs_signals = [''machine_operating'' \<mapsto> PStr ''yes'', ''panel_open'' \<mapsto> PStr ''yes'']\<rparr>
      \<lparr>tr_ok = True, tr_data = Some [], tr_error_type = None, tr_error = None,
       tr_latency_ms = 3, tr_retryable = False\<rparr>
      (Reply None) ThinkerAgent_init) = Returned \<and>
   fst (handle_observation 102
      \<lparr>obs_trace_id = ''t2'', obs_camera_id = ''cam1'', obs_clip_index = 8,
       obs_signals = [''machine_operating'' \<mapsto> PStr ''yes'', ''panel_open'' \<mapsto> PStr ''yes'']\<rparr>
      \<lparr>tr_ok = True, tr_data = Some [], tr_error_type = None, tr_error = None,
       tr_latency_ms = 3, tr_retryable = False\<rparr>
      (Reply None)
      (snd (snd (handle_observation 100
        \<lparr>obs_trace_id = ''t1'', obs_camera_id = ''cam1'', obs_clip_index = 7,
         obs_signals = [''machine_operating'' \<mapsto> PStr ''yes'', ''panel_open'' \<mapsto> PStr ''yes'']\<rparr>
        \<lparr>tr_ok = True, tr_data = Some [], tr_error_type = None, tr_error = None,
         tr_latency_ms = 3, tr_retryable = False\<rparr>
        (Reply None) ThinkerAgent_init)))) = Returned"
proof -
  define sig :: pydict where
    "sig = [''machine_operating'' \<mapsto> PStr ''yes'', ''panel_open'' \<mapsto> PStr ''yes'']"
  define th1 where
    "th1 = ThinkerAgent_init\<lparr>last_emit := [dedup_key ''cam1'' ''panel_open_while_operating'' \<mapsto> 100]\<rparr>"
  have y: "yn (Some (PStr ''yes'')) = ''yes''"
    by (simp add: yn_def string_defs)
  have st: "should_trigger sig = (True, ''panel_open_while_operating'')"
    by (simp add: should_trigger_def sig_def y)
  have g1: "thinker_gate 100 ''cam1'' sig ThinkerAgent_init = (Some ''panel_open_while_operating'', th1)"
    by (simp add: thinker_gate_def st cooldown_ok_def ThinkerAgent_init_def th1_def)
  have g2: "thinker_gate 102 ''cam1'' sig th1 = (None, th1)"
    by (simp add: thinker_gate_def st cooldown_ok_def ThinkerAgent_init_def th1_def)
  have h1: "handle_observation 100
      \<lparr>obs_trace_id = ''t1'', obs_camera_id = ''cam1'', obs_clip_index = 7, obs_signals = sig\<rparr>
      tool_res (Reply None) ThinkerAgent_init =
      (Returned, snd (thinker_decide
        \<lparr>obs_trace_id = ''t1'', obs_camera_id = ''cam1'', obs_clip_index = 7, obs_signals = sig\<rparr>
        ''panel_open_while_operating'' tool_res (Reply None)), th1)" for tool_res
    using g1 by (simp add: handle_observation_passed thinker_decide_unparsed)
  have h2: "handle_observation 102
      \<lparr>obs_trace_id = ''t2'', obs_camera_id = ''cam1'', obs_clip_index = 8, obs_signals = sig\<rparr>
      tool_res r th1 = (Returned, [], th1)" for tool_res r
    using g2 by (simp add: handle_observation_suppressed)
  show ?thesis
    unfolding sig_def [symmetric] by (simp add: g1 h1 h2)
qed

text \<open>
  C7 (amended): for every dedup key (camera and trigger rule) and three triggering observations
  for it, the first of which passes the cooldown test at time \<open>t1\<close>. The time stamp \<open>t1\<close> is
  recorded at the test, whatever becomes of the first observation. A second observation
  within the cooldown window of the first is suppressed: it returns before the lookup and the
  model call, publishes nothing, emits no audit record and leaves the agent, and so the time
  stamp, unchanged. A third observation, once the window measured from the first has expired,
  passes the test again and records its own time. An observation that passes the test is
  forwarded as a decision exactly when the decoded model output reports a violation, has a
  recommended action, and its confidence, rationale and evidence convert without an
  exception; it is forwarded in stub mode, and not forwarded when the model call raises or
  its output cannot be decoded. So of the first two at most the first is forwarded. Calls for
  another key do not touch the time stamp of this one.
\<close>

theorem C7_cooldown_forwarding:
  assumes "should_trigger (obs_signals o1) = (True, rule)"
    and "should_trigger (obs_signals o2) = (True, rule)"
    and "should_trigger (obs_signals o3) = (True, rule)"
    and "obs_camera_id o2 = obs_camera_id o1" and "obs_camera_id o3 = obs_camera_id o1"
    and "thinker_gate t1 (obs_camera_id o1) (obs_signals o1) th = (Some rule, th1)"
    and "t2 - t1 < cooldown_s th"
    and "cooldown_s th \<le> t3 - t1"
  shows "handle_observation t1 o1 tr1 r1 th =
      (fst (thinker_decide o1 rule tr1 r1), snd (thinker_decide o1 rule tr1 r1), th1) \<and>
    last_emit th1 (dedup_key (obs_camera_id o1) rule) = Some t1 \<and>
    handle_observation t2 o2 tr2 r2 th1 = (Returned, [], th1) \<and>
    handle_observation t3 o3 tr3 r3 th1 =
      (fst (thinker_decide o3 rule tr3 r3), snd (thinker_decide o3 rule tr3 r3),
       th1\<lparr>last_emit := (last_emit th1)(dedup_key (obs_camera_id o1) rule \<mapsto> t3)\<rparr>) \<and>
    (\<forall>obs tr out.
       (\<exists>d. fst (thinker_decide obs rule tr (Reply (Some out))) = Published d) =
       (reports_violation out \<and> normalize_actions (out_recommended_actions out) \<noteq> [] \<and>
        out_confidence out \<noteq> None \<and> out_rationale_short out \<noteq> None \<and>
        out_evidence_ok out)) \<and>
    (\<forall>obs tr. (\<exists>d. fst (thinker_decide obs rule tr NoModel) = Published d) \<and>
       fst (thinker_decide obs rule tr Raised) = Failed \<and>
       fst (thinker_decide obs rule tr (Reply None)) = Returned) \<and>
    (\<forall>k now. k \<noteq> dedup_key (obs_camera_id o1) rule \<longrightarrow>
       last_emit (snd (cooldown_ok now k th1)) (dedup_key (obs_camera_id o1) rule) = Some t1)"
proof -
  let ?key = "dedup_key (obs_camera_id o1) rule"
  have th1: "th1 = th\<lparr>last_emit := (last_emit th)(?key \<mapsto> t1)\<rparr>"
    using thinker_gate_Some [OF assms(6)] by simp
  then have l: "last_emit th1 ?key = Some t1" and c: "cooldown_s th1 = cooldown_s th"
    by simp_all
  have h1: "handle_observation t1 o1 tr1 r1 th =
      (fst (thinker_decide o1 rule tr1 r1), snd (thinker_decide o1 rule tr1 r1), th1)"
    using assms(6) by (rule handle_observation_passed)
  have g2: "thinker_gate t2 (obs_camera_id o2) (obs_signals o2) th1 = (None, th1)"
    using assms(2,7) by (simp add: thinker_gate_def cooldown_ok_def l c assms(4))
  have h2: "handle_observation t2 o2 tr2 r2 th1 = (Returned, [], th1)"
    using g2 by (rule handle_observation_suppressed)
  have g3: "thinker_gate t3 (obs_camera_id o3) (obs_signals o3) th1 =
      (Some rule, th1\<lparr>last_emit := (last_emit th1)(?key \<mapsto> t3)\<rparr>)"
    using assms(3,8) by (simp add: thinker_gate_def cooldown_ok_def l c assms(5))
  have h3: "handle_observation t3 o3 tr3 r3 th1 =
      (fst (thinker_decide o3 rule tr3 r3), snd (thinker_decide o3 rule tr3 r3),
       th1\<lparr>last_emit := (last_emit th1)(?key \<mapsto> t3)\<rparr>)"
    using g3 by (rule handle_observation_passed)
  have stub: "\<exists>d. fst (thinker_decide obs rule tr NoModel) = Published d" for obs tr
  proof -
    have "\<exists>d au. thinker_publish obs rule tr (citations_of tr) (stub_out rule) = (Published d, au)"
      unfolding thinker_publish_Published_iff
      by (simp add: reports_violation_def stub_out_def normalize_actions_def
          List.map_filter_simps dict_get_def)
    then show ?thesis
      by (auto simp: thinker_decide_def Let_def)
  qed
  have fr: "last_emit (snd (cooldown_ok now k th1)) ?key = Some t1" if "k \<noteq> ?key" for k now
    using that by (simp add: cooldown_ok_other_key l)
  from l h1 h2 h3 stub fr thinker_decide_Published_iff thinker_decide_Raised
    thinker_decide_unparsed
  show ?thesis by simp
qed

theorem C7_cooldown_forwarding_witness:
  "fst (thinker_gate 100 ''cam1''
      [''machine_operating'' \<mapsto> PStr ''yes'', ''panel_open'' \<mapsto> PStr ''yes''] ThinkerAgent_init)
     = Some ''panel_open_while_operating'' \<and>
   (\<exists>d. fst (handle_observation 100
      \<lparr>obs_trace_id = ''t1'', obs_camera_id = ''cam1'', obs_clip_index = 7,
       obs_signals = [''machine_operating'' \<mapsto> PStr ''yes'', ''panel_open'' \<mapsto> PStr ''yes'']\<rparr>
      \<lparr>tr_ok = True, tr_data = Some [], tr_error_type = None, tr_error = None,
       tr_latency_ms = 3, tr_retryable = False\<rparr>
      NoModel ThinkerAgent_init) = Published d) \<and>
   fst (handle_observation 102
      \<lparr>obs_trace_id = ''t2'', obs_camera_id = ''cam1'', obs_clip_index = 8,
       obs_signals = [''machine_operating'' \<mapsto> PStr ''yes'', ''panel_open'' \<mapsto> PStr ''yes'']\<rparr>
      \<lparr>tr_ok = True, tr_data = Some [], tr_error_type = None, tr_error = None,
       tr_latency_ms = 3, tr_retryable = False\<rparr>
      NoModel
      (ThinkerAgent_init
        \<lparr>last_emit := [dedup_key ''cam1'' ''panel_open_while_operating'' \<mapsto> 100]\<rparr>)) = Returned \<and>
   (\<exists>d. fst (handle_observation 104
      \<lparr>obs_trace_id = ''t3'', obs_camera_id = ''cam1'', obs_clip_index = 9,
       obs_signals = [''machine_operating'' \<mapsto> PStr ''yes'', ''panel_open'' \<mapsto> PStr ''yes'']\<rparr>
      \<lparr>tr_ok = True, tr_data = Some [], tr_error_type = None, tr_error = None,
       tr_latency_ms = 3, tr_retryable = False\<rparr>
      NoModel
      (ThinkerAgent_init
        \<lparr>last_emit := [dedup_key ''cam1'' ''panel_open_while_operating'' \<mapsto> 100]\<rparr>)) = Published d)"
proof -
  define sig :: pydict where
    "sig = [''machine_operating'' \<mapsto> PStr ''yes'', ''panel_open'' \<mapsto> PStr ''yes'']"
  define th1 where
    "th1 = ThinkerAgent_init\<lparr>last_emit := [dedup_key ''cam1'' ''panel_open_while_operating'' \<mapsto> 100]\<rparr>"
  define tr :: "sop_data ToolResult" where "tr =
    \<lparr>tr_ok = True, tr_data = Some [], tr_error_type = None, tr_error = None,
     tr_latency_ms = 3, tr_retryable = False\<rparr>"
  define o1 where "o1 =
    \<lparr>obs_trace_id = ''t1'', obs_camera_id = ''cam1'', obs_clip_index = 7, obs_signals = sig\<rparr>"
  define o2 where "o2 =
    \<lparr>obs_trace_id = ''t2'', obs_camera_id = ''cam1'', obs_clip_index = 8, obs_signals = sig\<rparr>"
  define o3 where "o3 =
    \<lparr>obs_trace_id = ''t3'', obs_camera_id = ''cam1'', obs_clip_index = 9, obs_signals = sig\<rparr>"
  have y: "yn (Some (PStr ''yes'')) = ''yes''"
    by (simp add: yn_def string_defs)
  have st: "should_trigger sig = (True, ''panel_open_while_operating'')"
    by (simp add: should_trigger_def sig_def y)
  have s1: "should_trigger (obs_signals o1) = (True, ''panel_open_while_operating'')"
    and s2: "should_trigger (obs_signals o2) = (True, ''panel_open_while_operating'')"
    and s3: "should_trigger (obs_signals o3) = (True, ''panel_open_while_operating'')"
    by (simp_all add: o1_def o2_def o3_def st)
  have c2: "obs_camera_id o2 = obs_camera_id o1" and c3: "obs_camera_id o3 = obs_camera_id o1"
    by (simp_all add: o1_def o2_def o3_def)
  have g: "thinker_gate 100 ''cam1'' sig ThinkerAgent_init = (Some ''panel_open_while_operating'', th1)"
    by (simp add: thinker_gate_def st cooldown_ok_def ThinkerAgent_init_def th1_def)
  then have g1: "thinker_gate 100 (obs_camera_id o1) (obs_signals o1) ThinkerAgent_init =
      (Some ''panel_open_while_operating'', th1)"
    by (simp add: o1_def)
  have w: "(102::real) - 100 < cooldown_s ThinkerAgent_init"
    "cooldown_s ThinkerAgent_init \<le> (104::real) - 100"
    by (simp_all add: ThinkerAgent_init_def)
  note r = C7_cooldown_forwarding [OF s1 s2 s3 c2 c3 g1 w, of tr NoModel tr NoModel tr NoModel]
  note a1 = r [THEN conjunct1]
  note a2 = r [THEN conjunct2, THEN conjunct2, THEN conjunct1]
  note a3 = r [THEN conjunct2, THEN conjunct2, THEN conjunct2, THEN conjunct1]
  note stub = r [THEN conjunct2, THEN conjunct2, THEN conjunct2, THEN conjunct2, THEN conjunct2,
      THEN conjunct1, rule_format, THEN conjunct1]
  have p1: "\<exists>d. fst (handle_observation 100 o1 tr NoModel ThinkerAgent_init) = Published d"
    using stub [of o1 tr] by (simp only: a1 fst_conv)
  have p2: "fst (handle_observation 102 o2 tr NoModel th1) = Returned"
    by (simp only: a2 fst_conv)
  have p3: "\<exists>d. fst (handle_observation 104 o3 tr NoModel th1) = Published d"
    using stub [of o3 tr] by (simp only: a3 fst_conv)
  from g p1 p2 p3 show ?thesis
    unfolding o1_def o2_def o3_def tr_def th1_def sig_def by simp
qed

text \<open>
  C3: for every decision that the Thinker publishes from a model output whose first recommended
  action normalizes to type \<open>stop_line\<close>: if the SOP lookup yielded no citation (it failed, or
  found nothing), the published action has type \<open>alert\<close>, priority \<open>P1\<close> and the message that
  says that policy grounding is unavailable, its target being kept, and a degradation audit
  record with the rule is emitted; if the lookup succeeded with at least one citation, the
  published action is the normalized recommended action, unchanged, and no degradation record
  is emitted.
\<close>

theorem C3_grounding_degradation:
  assumes "thinker_decide obs rule tool_res (Reply (Some out)) = (Published d, audit)"
    and "normalize_actions (out_recommended_actions out) = a # rest"
    and "a_type a = ''stop_line''"
  shows "(citations_of tool_res = [] \<longrightarrow>
            (\<exists>x. d_recommended_actions d = [x] \<and>
                 x ''type'' = Some (PStr ''alert'') \<and>
                 x ''priority'' = Some (PStr ''P1'') \<and>
                 x ''message'' = Some (PStr grounding_unavailable_message) \<and>
                 x ''target'' = Some (PStr (a_target a))) \<and>
            (\<exists>pre post. grounding_unavailable_message =
               pre @ ''policy grounding unavailable'' @ post) \<and>
            DegradationAudit rule \<in> set audit) \<and>
         (tr_ok tool_res \<and> citations_of tool_res \<noteq> [] \<longrightarrow>
            d_recommended_actions d =
              map action_dict (normalize_actions (out_recommended_actions out)) \<and>
            d_recommended_actions d = [action_dict a] \<and>
            (\<forall>r. DegradationAudit r \<notin> set audit))"
proof -
  have "length (normalize_actions (out_recommended_actions out)) \<le> 1"
    by (simp add: normalize_actions_def split: option.splits)
  with assms(2) have rest: "rest = []" by simp
  obtain au where pub: "thinker_publish obs rule tool_res (citations_of tool_res) out = (Published d, au)"
    and audit: "audit = (if tr_ok tool_res \<and> tr_data tool_res \<noteq> None then [] else [ToolErrorAudit]) @
      [LlmCallAudit True] @ au"
    using thinker_decide_Reply [OF assms(1)] by blast
  note p = thinker_publish_Published [OF pub assms(2)]
  have phrase: "\<exists>pre post. grounding_unavailable_message =
      pre @ ''policy grounding unavailable'' @ post"
    using grounding_message_phrase by blast
  have none: "citations_of tool_res = [] \<Longrightarrow>
      d_recommended_actions d = [action_dict (a\<lparr>a_type := ''alert'', a_priority := ''P1'',
        a_message := grounding_unavailable_message\<rparr>)] \<and> DegradationAudit rule \<in> set audit"
    using p assms(3) by (simp add: rest audit)
  have some: "tr_ok tool_res \<and> citations_of tool_res \<noteq> [] \<Longrightarrow>
      d_recommended_actions d = [action_dict a] \<and> (\<forall>r. DegradationAudit r \<notin> set audit)"
    using p by (auto simp: rest audit)
  from none have none': "citations_of tool_res = [] \<Longrightarrow>
      (\<exists>x. d_recommended_actions d = [x] \<and>
           x ''type'' = Some (PStr ''alert'') \<and>
           x ''priority'' = Some (PStr ''P1'') \<and>
           x ''message'' = Some (PStr grounding_unavailable_message) \<and>
           x ''target'' = Some (PStr (a_target a)))"
    by (simp add: action_dict_def)
  from none none' some phrase show ?thesis
    by (simp add: assms(2) rest)
qed

theorem C3_grounding_degradation_witness:
  "(\<exists>d audit.
      thinker_decide
        \<lparr>obs_trace_id = ''t1'', obs_camera_id = ''cam1'', obs_clip_index = 7,
         obs_signals = [''machine_operating'' \<mapsto> PStr ''yes'', ''panel_open'' \<mapsto> PStr ''yes'']\<rparr>
        ''panel_open_while_operating''
        \<lparr>tr_ok = True, tr_data = Some [], tr_error_type = None, tr_error = None,
         tr_latency_ms = 3, tr_retryable = False\<rparr>
        (Reply (Some
          \<lparr>out_assessment = Some [''violation'' \<mapsto> PObj True ''True''],
           out_recommended_actions =
             Some [Some [''type'' \<mapsto> PStr ''stop'', ''message'' \<mapsto> PStr ''Stop the line now.'']],
           out_confidence = Some (9 / 10),
           out_rationale_short = Some (PStr ''Panel open.''),
           out_evidence_ok = True\<rparr>)) = (Published d, audit) \<and>
      (\<exists>x. d_recommended_actions d = [x] \<and> x ''type'' = Some (PStr ''alert'') \<and>
           x ''priority'' = Some (PStr ''P1'')) \<and>
      DegradationAudit ''panel_open_while_operating'' \<in> set audit) \<and>
   (\<exists>d audit.
      thinker_decide
        \<lparr>obs_trace_id = ''t1'', obs_camera_id = ''cam1'', obs_clip_index = 7,
         obs_signals = [''machine_operating'' \<mapsto> PStr ''yes'', ''panel_open'' \<mapsto> PStr ''yes'']\<rparr>
        ''panel_open_while_operating''
        \<lparr>tr_ok = True,
         tr_data = Some [Some \<lparr>hit_id = Some (PStr ''S4''), hit_text = Some (PStr ''Close panel'')\<rparr>],
         tr_error_type = None, tr_error = None, tr_latency_ms = 3, tr_retryable = False\<rparr>
        (Reply (Some
          \<lparr>out_assessment = Some [''violation'' \<mapsto> PObj True ''True''],
           out_recommended_actions =
             Some [Some [''type'' \<mapsto> PStr ''stop'', ''message'' \<mapsto> PStr ''Stop the line now.'']],
           out_confidence = Some (9 / 10),
           out_rationale_short = Some (PStr ''Panel open.''),
           out_evidence_ok = True\<rparr>)) = (Published d, audit) \<and>
      d_recommended_actions d =
        [action_dict \<lparr>a_type = ''stop_line'', a_target = ''console'', a_priority = ''P2'',
           a_message = ''Stop the line now.''\<rparr>] \<and>
      DegradationAudit ''panel_open_while_operating'' \<notin> set audit)"
proof -
  define obs where "obs =
    \<lparr>obs_trace_id = ''t1'', obs_camera_id = ''cam1'', obs_clip_index = 7,
     obs_signals = [''machine_operating'' \<mapsto> PStr ''yes'', ''panel_open'' \<mapsto> PStr ''yes'']\<rparr>"
  define empty_res :: "sop_data ToolResult" where "empty_res =
    \<lparr>tr_ok = True, tr_data = Some [], tr_error_type = None, tr_error = None,
     tr_latency_ms = 3, tr_retryable = False\<rparr>"
  define hit_res :: "sop_data ToolResult" where "hit_res =
    \<lparr>tr_ok = True,
     tr_data = Some [Some \<lparr>hit_id = Some (PStr ''S4''), hit_text = Some (PStr ''Close panel'')\<rparr>],
     tr_error_type = None, tr_error = None, tr_latency_ms = 3, tr_retryable = False\<rparr>"
  define out where "out =
    \<lparr>out_assessment = Some [''violation'' \<mapsto> PObj True ''True''],
     out_recommended_actions =
       Some [Some [''type'' \<mapsto> PStr ''stop'', ''message'' \<mapsto> PStr ''Stop the line now.'']],
     out_confidence = Some (9 / 10),
     out_rationale_short = Some (PStr ''Panel open.''),
     out_evidence_ok = True\<rparr>"
  define a where "a =
    \<lparr>a_type = ''stop_line'', a_target = ''console'', a_priority = ''P2'',
     a_message = ''Stop the line now.''\<rparr>"
  have ct: "canonical_action_type ''stop'' = ''stop_line''"
    by (simp add: canonical_action_type_def stop_synonyms_def string_defs)
  have cp: "canonical_priority [] = ''P2''"
    by (simp add: canonical_priority_def string_defs)
  have sm: "strip ''Stop the line now.'' = ''Stop the line now.''"
    by (simp add: string_defs)
  have n: "normalize_actions (out_recommended_actions out) = [a]"
    by (simp add: out_def a_def normalize_actions_def normalize_action_def List.map_filter_simps
        dict_get_def str_or_def ct cp sm)
  have t: "a_type a = ''stop_line''"
    by (simp add: a_def)
  have f: "out_assessment out = Some [''violation'' \<mapsto> PObj True ''True'']"
    "out_confidence out = Some (9 / 10)" "out_rationale_short out = Some (PStr ''Panel open.'')"
    "out_evidence_ok out"
    by (simp_all add: out_def)
  have pub: "\<exists>d au. thinker_publish obs ''panel_open_while_operating'' tool_res cits out =
      (Published d, au)" for tool_res cits
    by (simp add: thinker_publish_def Let_def n f dict_get_def)
  have dec: "\<exists>d audit. thinker_decide obs ''panel_open_while_operating'' tool_res (Reply (Some out)) =
      (Published d, audit)" for tool_res
    using pub [of tool_res "citations_of tool_res"] by (auto simp: thinker_decide_def Let_def)
  have c1: "citations_of empty_res = []"
    by (simp add: citations_of_def empty_res_def List.map_filter_simps)
  have c2: "tr_ok hit_res \<and> citations_of hit_res \<noteq> []"
    by (simp add: citations_of_def hit_res_def List.map_filter_simps)
  obtain d1 audit1 where r1: "thinker_decide obs ''panel_open_while_operating'' empty_res
      (Reply (Some out)) = (Published d1, audit1)"
    using dec by blast
  obtain d2 audit2 where r2: "thinker_decide obs ''panel_open_while_operating'' hit_res
      (Reply (Some out)) = (Published d2, audit2)"
    using dec by blast
  from C3_grounding_degradation [OF r1 n t] c1
  have p1: "(\<exists>x. d_recommended_actions d1 = [x] \<and> x ''type'' = Some (PStr ''alert'') \<and>
           x ''priority'' = Some (PStr ''P1'')) \<and>
      DegradationAudit ''panel_open_while_operating'' \<in> set audit1"
    by blast
  from C3_grounding_degradation [OF r2 n t] c2
  have p2: "d_recommended_actions d2 = [action_dict a] \<and>
      DegradationAudit ''panel_open_while_operating'' \<notin> set audit2"
    by blast
  from r1 p1 r2 p2 show ?thesis
    unfolding obs_def empty_res_def hit_res_def out_def a_def by blast
qed


text \<open>
  C10: for every decision that carries a recommended action, with \<open>c\<close> the canonical type of
  its first recommended action: unless the model call raises, \<open>handle_decision\<close> records an
  action event; and for every action event it records (skipped, sent or failed), the type of
  the recorded action is \<open>c\<close>, its canonical type is \<open>c\<close>, and the type \<open>a_type\<close> used for
  deduplication is \<open>c\<close>, whatever type the model output of the enrichment step carries.
\<close>

theorem C10_enrichment_keeps_type:
  assumes "d_recommended_actions dec = r0 # rs"
  shows "(r \<noteq> Raised \<longrightarrow> (\<exists>ev t dr'. handle_decision now dec r disp dr = (Acted ev t, dr'))) \<and>
    (\<forall>ev t dr'. handle_decision now dec r disp dr = (Acted ev t, dr') \<longrightarrow>
       da_type (ae_action ev) = canonical_action_type (py_str (dict_get r0 ''type'' (PStr []))) \<and>
       canonical_action_type (da_type (ae_action ev)) =
         canonical_action_type (py_str (dict_get r0 ''type'' (PStr []))) \<and>
       t = canonical_action_type (py_str (dict_get r0 ''type'' (PStr []))))"
proof -
  let ?c = "canonical_action_type (py_str (dict_get r0 ''type'' (PStr [])))"
  have a: "\<exists>ev t dr'. handle_decision now dec r disp dr = (Acted ev t, dr')" if "r \<noteq> Raised"
  proof -
    from that obtain a ok where "enrich_actions dec r = Some ([a], ok)"
      using enrich_actions_returns by blast
    then show ?thesis by (rule handle_decision_acts)
  qed
  have b: "da_type (ae_action ev) = ?c \<and> canonical_action_type (da_type (ae_action ev)) = ?c \<and> t = ?c"
    if h: "handle_decision now dec r disp dr = (Acted ev t, dr')" for ev t dr'
  proof -
    obtain acts ok a as where e: "enrich_actions dec r = Some (acts, ok)"
      and tk: "take 1 acts = a # as"
      and ty: "da_type (ae_action ev) = da_type a" and t: "t = canonical_action_type (da_type a)"
      using handle_decision_Acted [OF h] by blast
    obtain a' where "acts = [a']" and c: "da_type a' = ?c"
      using enrich_actions_type [OF assms e] by blast
    with tk have "a = a'" by simp
    with c ty t show ?thesis
      by (simp add: canonical_action_type_idem)
  qed
  from a b show ?thesis by blast
qed

theorem C10_enrichment_keeps_type_witness:
  "(\<exists>ev dr'.
      handle_decision 100
        \<lparr>d_trace_id = ''t1'', d_camera_id = ''cam1'', d_clip_index = 7,
         d_assessment = [''severity'' \<mapsto> PStr ''high''], d_confidence = 9 / 10,
         d_recommended_actions = [[''type'' \<mapsto> PStr ''alert'', ''message'' \<mapsto> PStr ''Check panel'']],
         d_rationale_short = PStr ''Panel open.'', d_citations = []\<rparr>
        (Reply (Some \<lparr>do_actions = Some [Some [''type'' \<mapsto> PStr ''stop_line'']]\<rparr>))
        \<lparr>tr_ok = True, tr_data = Some (), tr_error_type = None, tr_error = None,
         tr_latency_ms = 5, tr_retryable = False\<rparr>
        \<lparr>doer_last = Map.empty\<rparr> = (Acted ev ''alert'', dr') \<and>
      da_type (ae_action ev) = ''alert'')"
proof -
  define dec where "dec =
    \<lparr>d_trace_id = ''t1'', d_camera_id = ''cam1'', d_clip_index = 7,
     d_assessment = [''severity'' \<mapsto> PStr ''high''], d_confidence = 9 / 10,
     d_recommended_actions = [[''type'' \<mapsto> PStr ''alert'', ''message'' \<mapsto> PStr ''Check panel'']],
     d_rationale_short = PStr ''Panel open.'', d_citations = []\<rparr>"
  define r where "r = Reply (Some \<lparr>do_actions = Some [Some [''type'' \<mapsto> PStr ''stop_line'']]\<rparr>)"
  define disp :: "unit ToolResult" where "disp =
    \<lparr>tr_ok = True, tr_data = Some (), tr_error_type = None, tr_error = None,
     tr_latency_ms = 5, tr_retryable = False\<rparr>"
  have rec: "d_recommended_actions dec =
      [''type'' \<mapsto> PStr ''alert'', ''message'' \<mapsto> PStr ''Check panel''] # []"
    by (simp add: dec_def)
  have nr: "r \<noteq> Raised"
    by (simp add: r_def)
  have c: "canonical_action_type (py_str (dict_get
      [''type'' \<mapsto> PStr ''alert'', ''message'' \<mapsto> PStr ''Check panel''] ''type'' (PStr []))) = ''alert''"
    by (simp add: dict_get_def canonical_action_type_def stop_synonyms_def alert_synonyms_def
        string_defs)
  note th = C10_enrichment_keeps_type [OF rec, of r 100 disp "\<lparr>doer_last = Map.empty\<rparr>"]
  from th nr obtain ev t dr' where
    h: "handle_decision 100 dec r disp \<lparr>doer_last = Map.empty\<rparr> = (Acted ev t, dr')"
    by blast
  with th have "da_type (ae_action ev) = ''alert''" "t = ''alert''"
    unfolding c by blast+
  with h show ?thesis
    unfolding dec_def r_def disp_def by blast
qed


text \<open>
  C6: a stage is in flight under \<open>key\<close> and over its SLO from the first of 120 polls on, the
  polls being 250 ms apart (they cover 30 s: poll \<open>k\<close> reads the clock value \<open>t0 + k / 4\<close>), and
  no breach was recorded for the key in the 10 s before the first poll (with no record at
  all, \<open>_fired.get(key, 0.0)\<close> is the epoch, 0). Whatever else is in flight at each poll, the
  breach records emitted for the key are exactly three, at the clock values \<open>t0\<close>, \<open>t0 + 10\<close>
  and \<open>t0 + 20\<close>: poll \<open>k\<close> emits one exactly when \<open>k\<close> is a multiple of 40, not at every
  poll. And for every tick in every state, a breach is emitted for a key only if at least
  10 s have passed since the firing recorded for it, and the tick then records its own clock
  value as the new firing.
\<close>

theorem C6_watchdog_debounce:
  assumes "SLO_BY_STAGE (stage sif) = Some slo_attr"
    and "\<forall>k < 120. map_of (inflight (sts k)) key = Some sif \<and>
      distinct (map fst (inflight (sts k)))"
    and "slo_attr (wd_cfg wd) \<le> py_int ((t0 - start_ts sif) * 1000)"
    and "10 \<le> t0 - (case fired wd key of Some v \<Rightarrow> v | None \<Rightarrow> 0)"
  shows "concat (map (breaches_of key) (snd (polls (schedule t0 sts 0 120) wd))) =
      [(key, stage_breach t0 (slo_attr (wd_cfg wd)) sif),
       (key, stage_breach (t0 + 10) (slo_attr (wd_cfg wd)) sif),
       (key, stage_breach (t0 + 20) (slo_attr (wd_cfg wd)) sif)] \<and>
    map (breaches_of key) (snd (polls (schedule t0 sts 0 120) wd)) =
      map (\<lambda>k. if k mod 40 = 0
               then [(key, stage_breach (t0 + real k / 4) (slo_attr (wd_cfg wd)) sif)]
               else []) [0..<120] \<and>
    (\<forall>now st w b. (key, b) \<in> set (snd (tick now st w)) \<longrightarrow>
       10 \<le> now - (case fired w key of Some v \<Rightarrow> v | None \<Rightarrow> 0) \<and>
       fired (fst (tick now st w)) key = Some now)"
proof -
  let ?g = "\<lambda>k. (key, stage_breach (t0 + real k / 4) (slo_attr (wd_cfg wd)) sif)"
  have n: "(120::nat) = Suc 119" by simp
  have m: "map (breaches_of key) (snd (polls (schedule t0 sts 0 (Suc 119)) wd)) =
      map (\<lambda>k. if k mod 40 = 0 then [?g k] else []) [0..<Suc 119]"
    using assms(1) _ assms(3,4)
  proof (rule polls_from_start)
    show "\<forall>k < Suc 119. map_of (inflight (sts k)) key = Some sif \<and>
        distinct (map fst (inflight (sts k)))"
      using assms(2) by simp
  qed
  then have m': "map (breaches_of key) (snd (polls (schedule t0 sts 0 120) wd)) =
      map (\<lambda>k. if k mod 40 = 0 then [?g k] else []) [0..<120]"
    by (simp only: n)
  have "concat (map (breaches_of key) (snd (polls (schedule t0 sts 0 120) wd))) =
      map ?g (filter (\<lambda>k. k mod 40 = 0) [0..<120])"
    by (simp only: m' concat_map_if)
  also have "\<dots> = map ?g [0, 40, 80]"
    by (simp only: firing_polls)
  also have "\<dots> = [(key, stage_breach t0 (slo_attr (wd_cfg wd)) sif),
       (key, stage_breach (t0 + 10) (slo_attr (wd_cfg wd)) sif),
       (key, stage_breach (t0 + 20) (slo_attr (wd_cfg wd)) sif)]"
    by simp
  finally have c: "concat (map (breaches_of key) (snd (polls (schedule t0 sts 0 120) wd))) =
      [(key, stage_breach t0 (slo_attr (wd_cfg wd)) sif),
       (key, stage_breach (t0 + 10) (slo_attr (wd_cfg wd)) sif),
       (key, stage_breach (t0 + 20) (slo_attr (wd_cfg wd)) sif)]" .
  from c m' tick_debounce show ?thesis by blast
qed

theorem C6_watchdog_debounce_witness:
  "concat (map (breaches_of ''t1:thinker'')
     (snd (polls
       (schedule 1002 (\<lambda>k. fst (begin_stage 1000 ''t1'' ''thinker'' 7 0 0 RuntimeState_init)) 0 120)
       (Watchdog_init
         \<lparr>gameday_enabled = True, gameday_scenario = ''none'', gameday_force = True,
          slo_observer_ms = 2500, slo_thinker_ms = 2000, slo_doer_ms = 1500,
          slo_dispatcher_ms = 1200, slo_pipeline_e2e_ms = 5000\<rparr>)))) =
   [(''t1:thinker'',
     \<lparr>br_stage = ''thinker'', br_trace_id = ''t1'', br_clip_index = 7, br_elapsed_ms = 2000,
      br_slo_ms = 2000\<rparr>),
    (''t1:thinker'',
     \<lparr>br_stage = ''thinker'', br_trace_id = ''t1'', br_clip_index = 7, br_elapsed_ms = 12000,
      br_slo_ms = 2000\<rparr>),
    (''t1:thinker'',
     \<lparr>br_stage = ''thinker'', br_trace_id = ''t1'', br_clip_index = 7, br_elapsed_ms = 22000,
      br_slo_ms = 2000\<rparr>)]"
proof -
  define cfg where "cfg =
    \<lparr>gameday_enabled = True, gameday_scenario = ''none'', gameday_force = True,
     slo_observer_ms = 2500, slo_thinker_ms = 2000, slo_doer_ms = 1500,
     slo_dispatcher_ms = 1200, slo_pipeline_e2e_ms = 5000\<rparr>"
  define sif where "sif =
    \<lparr>start_ts = 1000, stage = ''thinker'', sif_trace_id = ''t1'', clip_index = 7,
     dd_trace_id = 0, dd_parent_id = 0\<rparr>"
  define st where "st = fst (begin_stage 1000 ''t1'' ''thinker'' 7 0 0 RuntimeState_init)"
  have i: "inflight st = [(''t1:thinker'', sif)]"
    by (simp add: st_def sif_def begin_stage_def stage_key_def RuntimeState_init_def Let_def)
  have a1: "SLO_BY_STAGE (stage sif) = Some slo_thinker_ms"
    by (simp add: SLO_BY_STAGE_def sif_def)
  have a2: "\<forall>k < 120. map_of (inflight ((\<lambda>k. st) k)) ''t1:thinker'' = Some sif \<and>
      distinct (map fst (inflight ((\<lambda>k. st) k)))"
    by (simp add: i)
  have a3: "slo_thinker_ms (wd_cfg (Watchdog_init cfg)) \<le> py_int ((1002 - start_ts sif) * 1000)"
    by (simp add: Watchdog_init_def cfg_def sif_def py_int_def)
  have a4: "10 \<le> 1002 - (case fired (Watchdog_init cfg) ''t1:thinker'' of Some v \<Rightarrow> v | None \<Rightarrow> 0)"
    by (simp add: Watchdog_init_def)
  have b: "stage_breach 1002 (slo_thinker_ms (wd_cfg (Watchdog_init cfg))) sif =
      \<lparr>br_stage = ''thinker'', br_trace_id = ''t1'', br_clip_index = 7, br_elapsed_ms = 2000,
       br_slo_ms = 2000\<rparr>"
    "stage_breach (1002 + 10) (slo_thinker_ms (wd_cfg (Watchdog_init cfg))) sif =
      \<lparr>br_stage = ''thinker'', br_trace_id = ''t1'', br_clip_index = 7, br_elapsed_ms = 12000,
       br_slo_ms = 2000\<rparr>"
    "stage_breach (1002 + 20) (slo_thinker_ms (wd_cfg (Watchdog_init cfg))) sif =
      \<lparr>br_stage = ''thinker'', br_trace_id = ''t1'', br_clip_index = 7, br_elapsed_ms = 22000,
       br_slo_ms = 2000\<rparr>"
    by (simp_all add: stage_breach_def Watchdog_init_def cfg_def sif_def py_int_def)
  from C6_watchdog_debounce [OF a1 a2 a3 a4]
  have "concat (map (breaches_of ''t1:thinker'')
      (snd (polls (schedule 1002 (\<lambda>k. st) 0 120) (Watchdog_init cfg)))) =
    [(''t1:thinker'', stage_breach 1002 (slo_thinker_ms (wd_cfg (Watchdog_init cfg))) sif),
     (''t1:thinker'', stage_breach (1002 + 10) (slo_thinker_ms (wd_cfg (Watchdog_init cfg))) sif),
     (''t1:thinker'', stage_breach (1002 + 20) (slo_thinker_ms (wd_cfg (Watchdog_init cfg))) sif)]"
    by (rule conjunct1)
  then have "concat (map (breaches_of ''t1:thinker'')
      (snd (polls (schedule 1002 (\<lambda>k. st) 0 120) (Watchdog_init cfg)))) =
    [(''t1:thinker'',
      \<lparr>br_stage = ''thinker'', br_trace_id = ''t1'', br_clip_index = 7, br_elapsed_ms = 2000,
       br_slo_ms = 2000\<rparr>),
     (''t1:thinker'',
      \<lparr>br_stage = ''thinker'', br_trace_id = ''t1'', br_clip_index = 7, br_elapsed_ms = 12000,
       br_slo_ms = 2000\<rparr>),
     (''t1:thinker'',
      \<lparr>br_stage = ''thinker'', br_trace_id = ''t1'', br_clip_index = 7, br_elapsed_ms = 22000,
       br_slo_ms = 2000\<rparr>)]"
    by (simp only: b)
  then show ?thesis
    unfolding st_def cfg_def .
qed

end
